theory Spec2Isabelle
  imports Main "HOL-Library.Finite_Map"
begin

section \<open>Strings\<close>

text \<open>
  A JavaScript string is modelled as a \<^typ>\<open>string\<close>; one \<^typ>\<open>char\<close> stands for one
  code unit in the range 0..255.  The white space of \<^verbatim>\<open>String.prototype.trim\<close> and
  of the regular-expression class \<^verbatim>\<open>\s\<close> in that range is TAB, LF, VT, FF, CR, SP
  and NBSP.
\<close>

definition is_space :: "char \<Rightarrow> bool" where
  "is_space c = (let n = (of_char c :: nat) in
     n = 9 \<or> n = 10 \<or> n = 11 \<or> n = 12 \<or> n = 13 \<or> n = 32 \<or> n = 160)"

text \<open>The class \<^verbatim>\<open>[A-Za-z_0-9]\<close>.\<close>

definition is_word_char :: "char \<Rightarrow> bool" where
  "is_word_char c = (let n = (of_char c :: nat) in
     (65 \<le> n \<and> n \<le> 90) \<or> (97 \<le> n \<and> n \<le> 122) \<or> n = 95 \<or> (48 \<le> n \<and> n \<le> 57))"

text \<open>The class \<^verbatim>\<open>[A-Za-z_0-9,\s]\<close>.\<close>

definition is_arg_char :: "char \<Rightarrow> bool" where
  "is_arg_char c = (is_word_char c \<or> c = CHR '','' \<or> is_space c)"

definition trim :: "string \<Rightarrow> string" where
  "trim s = rev (dropWhile is_space (rev (dropWhile is_space s)))"

definition startsWith :: "string \<Rightarrow> string \<Rightarrow> bool" where
  "startsWith s p = (take (length p) s = p)"

definition endsWith_char :: "string \<Rightarrow> char \<Rightarrow> bool" where
  "endsWith_char s c = (s \<noteq> [] \<and> last s = c)"

text \<open>\<^verbatim>\<open>s.split(",")\<close>: always at least one piece.\<close>

fun split_comma :: "string \<Rightarrow> string list" where
  "split_comma [] = [[]]"
| "split_comma (c # cs) =
     (if c = CHR '','' then [] # split_comma cs
      else (case split_comma cs of
              p # ps \<Rightarrow> (c # p) # ps
            | [] \<Rightarrow> [[c]]))"

text \<open>\<^verbatim>\<open>CleanTypeName\<close>, database.ts lines 536-546.\<close>

definition CleanTypeName :: "string \<Rightarrow> string" where
  "CleanTypeName typename0 =
     (let t1 = trim typename0;
          t2 = (if startsWith t1 ''const '' then drop 6 t1 else t1);
          t3 = (if endsWith_char t2 (CHR ''&'') then trim (butlast t2) else t2);
          t4 = (if endsWith_char t3 (CHR ''@'') then trim (butlast t3) else t3)
      in t4)"

text \<open>
  \<^verbatim>\<open>typename.match(re_template)\<close>, where \<open>re_template\<close> is: one or more characters
  of \<^verbatim>\<open>[A-Za-z_0-9]\<close> (group 1), a less-than sign, one or more characters of
  \<^verbatim>\<open>[A-Za-z_0-9,\s]\<close> (group 2), a greater-than sign.
  Neither angle bracket belongs to the class that precedes it, so at a given
  start position the only way to match is with both greedy groups at their longest;
  \<open>match_here\<close> is that attempt, and \<open>match_template\<close> tries the start positions from
  left to right, as the regular-expression engine does.  The result is the pair of
  capture groups.
\<close>

definition match_here :: "string \<Rightarrow> (string \<times> string) option" where
  "match_here s =
     (let g1 = takeWhile is_word_char s; r1 = dropWhile is_word_char s in
      if g1 = [] then None
      else (case r1 of
              [] \<Rightarrow> None
            | c # r2 \<Rightarrow>
                if c \<noteq> CHR ''<'' then None
                else (let g2 = takeWhile is_arg_char r2; r3 = dropWhile is_arg_char r2 in
                      if g2 = [] then None
                      else (case r3 of
                              [] \<Rightarrow> None
                            | d # _ \<Rightarrow> if d = CHR ''>'' then Some (g1, g2) else None))))"

fun match_template :: "string \<Rightarrow> (string \<times> string) option" where
  "match_template [] = None"
| "match_template (c # cs) =
     (case match_here (c # cs) of
        Some m \<Rightarrow> Some m
      | None \<Rightarrow> match_template cs)"

text \<open>
  \<^verbatim>\<open>ReplaceTemplateType\<close>, database.ts lines 548-559.  The loop runs over the
  indices of \<open>templateTypes\<close>; \<open>actualTypes[i]\<close> beyond the end of \<open>actualTypes\<close> is
  JavaScript's \<^verbatim>\<open>undefined\<close>, which is the result \<open>None\<close> here.
\<close>

fun ReplaceTemplateType_from :: "nat \<Rightarrow> string \<Rightarrow> string list \<Rightarrow> string list \<Rightarrow> string option" where
  "ReplaceTemplateType_from i typename [] actualTypes = Some typename"
| "ReplaceTemplateType_from i typename (t # templateTypes) actualTypes =
     (if typename = t
      then (if i < length actualTypes then Some (actualTypes ! i) else None)
      else ReplaceTemplateType_from (Suc i) typename templateTypes actualTypes)"

definition ReplaceTemplateType :: "string \<Rightarrow> string list \<Rightarrow> string list \<Rightarrow> string option" where
  "ReplaceTemplateType typename templateTypes actualTypes =
     ReplaceTemplateType_from 0 (CleanTypeName typename) templateTypes actualTypes"

section \<open>Entity model\<close>

text \<open>
  The classes of database.ts as records.  A field that may hold \<^verbatim>\<open>undefined\<close> or
  \<^verbatim>\<open>null\<close> (no initialiser, or set to \<^verbatim>\<open>null\<close> by the code) is an option with
  \<open>None\<close> for either.  Fields with the initialiser \<^verbatim>\<open>= false\<close> are plain booleans.
  Field names carry a prefix where two classes share a name.
\<close>

record DBProperty =
  p_name :: string
  p_typename :: string
  p_documentation :: "string option"
  p_isProtected :: "bool option"
  p_isPrivate :: "bool option"

record DBArg =
  a_name :: "string option"
  a_typename :: string
  a_defaultvalue :: "string option"

record DBMethod =
  m_name :: string
  m_returnType :: string
  m_args :: "DBArg list"
  m_argumentStr :: "string option"
  m_documentation :: "string option"
  m_declaredModule :: "string option"
  m_isProtected :: bool
  m_isPrivate :: bool
  m_isConstructor :: bool
  m_isEvent :: bool
  m_isConst :: bool

record DBType =
  typename :: string
  supertype :: "string option"
  properties :: "DBProperty list"
  methods :: "DBMethod list"
  unrealsuper :: "string option"
  documentation :: "string option"
  isStruct :: "bool option"
  isNS :: "bool option"
  isEnum :: "bool option"
  rawName :: "string option"
  namespaceResolved :: "bool option"
  shadowedNamespace :: "bool option"
  isDelegate :: bool
  isEvent :: bool
  isPrimitive :: bool
  declaredModule :: "string option"
  siblingTypes :: "string list option"
  subTypes :: "string list option"

text \<open>
  \<open>TypeError\<close> is JavaScript's exception for a property access on \<^verbatim>\<open>null\<close> or
  \<^verbatim>\<open>undefined\<close>.  \<open>UndefinedTypeName\<close> is not an exception of the source: it marks
  the point where \<open>ReplaceTemplateType\<close> read \<open>actualTypes\<close> out of range and the
  source would store \<^verbatim>\<open>undefined\<close> in a field declared \<^verbatim>\<open>string\<close>, a value the
  records above do not have.  \<open>DBType.createTemplateInstance\<close> compares the two lengths
  first, so a lookup never reaches it (lemma \<open>GetType_no_UndefinedTypeName\<close>).
\<close>

datatype error = TypeError | UndefinedTypeName

text \<open>Running a fallible function over an array, stopping at the first failure.\<close>

fun collect :: "('a \<Rightarrow> error + 'b) \<Rightarrow> 'a list \<Rightarrow> error + 'b list" where
  "collect f [] = Inr []"
| "collect f (x # xs) =
     (case f x of
        Inl e \<Rightarrow> Inl e
      | Inr y \<Rightarrow> (case collect f xs of Inl e \<Rightarrow> Inl e | Inr ys \<Rightarrow> Inr (y # ys)))"

text \<open>\<^verbatim>\<open>DBProperty.createTemplateInstance\<close>, lines 37-43: a new object, of which only
  \<open>name\<close> and \<open>typename\<close> are assigned.\<close>

definition DBProperty_createTemplateInstance ::
    "DBProperty \<Rightarrow> string list \<Rightarrow> string list \<Rightarrow> error + DBProperty" where
  "DBProperty_createTemplateInstance this templateTypes actualTypes =
     (case ReplaceTemplateType (p_typename this) templateTypes actualTypes of
        None \<Rightarrow> Inl UndefinedTypeName
      | Some t \<Rightarrow> Inr \<lparr> p_name = p_name this, p_typename = t, p_documentation = None,
                        p_isProtected = None, p_isPrivate = None \<rparr>)"

text \<open>\<^verbatim>\<open>DBArg.createTemplateInstance\<close>, lines 78-85.\<close>

definition DBArg_createTemplateInstance ::
    "DBArg \<Rightarrow> string list \<Rightarrow> string list \<Rightarrow> error + DBArg" where
  "DBArg_createTemplateInstance this templateTypes actualTypes =
     (case ReplaceTemplateType (a_typename this) templateTypes actualTypes of
        None \<Rightarrow> Inl UndefinedTypeName
      | Some t \<Rightarrow> Inr \<lparr> a_name = a_name this, a_typename = t,
                        a_defaultvalue = a_defaultvalue this \<rparr>)"

text \<open>\<^verbatim>\<open>DBMethod.createTemplateInstance\<close>, lines 102-114: \<open>name\<close>, \<open>returnType\<close>,
  \<open>argumentStr\<close>, \<open>documentation\<close> and \<open>args\<close> are assigned; the other fields keep the
  values of a new \<open>DBMethod\<close>.\<close>

definition DBMethod_createTemplateInstance ::
    "DBMethod \<Rightarrow> string list \<Rightarrow> string list \<Rightarrow> error + DBMethod" where
  "DBMethod_createTemplateInstance this templateTypes actualTypes =
     (case ReplaceTemplateType (m_returnType this) templateTypes actualTypes of
        None \<Rightarrow> Inl UndefinedTypeName
      | Some r \<Rightarrow>
          (case collect (\<lambda>argval. DBArg_createTemplateInstance argval templateTypes actualTypes)
                        (m_args this) of
             Inl e \<Rightarrow> Inl e
           | Inr as \<Rightarrow>
               Inr \<lparr> m_name = m_name this, m_returnType = r, m_args = as,
                     m_argumentStr = m_argumentStr this,
                     m_documentation = m_documentation this,
                     m_declaredModule = None,
                     m_isProtected = False, m_isPrivate = False, m_isConstructor = False,
                     m_isEvent = False, m_isConst = False \<rparr>))"

text \<open>
  \<^verbatim>\<open>DBType.createTemplateInstance\<close>, lines 226-253.  \<open>this.subTypes.length\<close> raises
  when \<open>subTypes\<close> is unset; a length mismatch returns \<^verbatim>\<open>null\<close> (\<open>Inr None\<close>).
  The fields that the source does not assign (\<open>unrealsuper\<close>, \<open>documentation\<close>,
  \<open>isStruct\<close>, and the three flags with initialisers) keep the values of a new
  \<open>DBType\<close>.
\<close>

definition DBType_createTemplateInstance ::
    "DBType \<Rightarrow> string list \<Rightarrow> error + DBType option" where
  "DBType_createTemplateInstance this actualTypes =
     (case subTypes this of
        None \<Rightarrow> Inl TypeError
      | Some templateTypes \<Rightarrow>
          if length actualTypes \<noteq> length templateTypes then Inr None
          else
            (case collect (\<lambda>prop. DBProperty_createTemplateInstance prop templateTypes actualTypes)
                          (properties this) of
               Inl e \<Rightarrow> Inl e
             | Inr props \<Rightarrow>
                 (case collect (\<lambda>mth. DBMethod_createTemplateInstance mth templateTypes actualTypes)
                               (methods this) of
                    Inl e \<Rightarrow> Inl e
                  | Inr mths \<Rightarrow>
                      Inr (Some \<lparr> typename = typename this, supertype = supertype this,
                                  properties = props, methods = mths,
                                  unrealsuper = None, documentation = None,
                                  isStruct = None, isNS = isNS this, isEnum = isEnum this,
                                  rawName = rawName this,
                                  namespaceResolved = namespaceResolved this,
                                  shadowedNamespace = shadowedNamespace this,
                                  isDelegate = False, isEvent = False, isPrimitive = False,
                                  declaredModule = declaredModule this,
                                  siblingTypes = siblingTypes this,
                                  subTypes = None \<rparr>))))"

section \<open>The registry\<close>

text \<open>
  Objects of class \<open>DBType\<close> live in a store and are referred to by address, so that
  identity (\<^verbatim>\<open>extend.includes(dbsuper)\<close>, the cached instance) and mutation through
  a shared reference are what they are in the source.  \<open>nextaddr\<close> is the address that
  the next \<^verbatim>\<open>new DBType()\<close> kept by the program receives.  \<open>database\<close> is the
  \<^verbatim>\<open>Map<string, DBType>\<close> of line 534.
\<close>

type_synonym addr = nat

record state =
  heap :: "addr \<Rightarrow> DBType"
  nextaddr :: addr
  database :: "(string, addr) fmap"

lemma length_trim_le: "length (trim s) \<le> length s"
proof -
  have "length (dropWhile is_space (rev (dropWhile is_space s))) \<le> length (rev (dropWhile is_space s))"
    by (rule length_dropWhile_le)
  also have "\<dots> \<le> length s"
    by (simp add: length_dropWhile_le)
  finally show ?thesis by (simp add: trim_def)
qed

lemma length_CleanTypeName_le: "length (CleanTypeName s) \<le> length s"
proof -
  define t1 where "t1 = trim s"
  define t2 where "t2 = (if startsWith t1 ''const '' then drop 6 t1 else t1)"
  define t3 where "t3 = (if endsWith_char t2 (CHR ''&'') then trim (butlast t2) else t2)"
  define t4 where "t4 = (if endsWith_char t3 (CHR ''@'') then trim (butlast t3) else t3)"
  have 1: "length t1 \<le> length s" by (simp add: t1_def length_trim_le)
  have 2: "length t2 \<le> length t1" by (simp add: t2_def)
  have "length (trim (butlast t2)) \<le> length t2"
    using length_trim_le [of "butlast t2"] by simp
  then have 3: "length t3 \<le> length t2" by (simp add: t3_def)
  have "length (trim (butlast t3)) \<le> length t3"
    using length_trim_le [of "butlast t3"] by simp
  then have 4: "length t4 \<le> length t3" by (simp add: t4_def)
  have "CleanTypeName s = t4"
    by (simp add: CleanTypeName_def Let_def t1_def t2_def t3_def t4_def)
  with 1 2 3 4 show ?thesis by simp
qed

lemma match_here_parts:
  assumes "match_here s = Some (b, i)"
  shows "b = takeWhile is_word_char s \<and> b \<noteq> [] \<and>
         (\<exists>r. dropWhile is_word_char s = CHR ''<'' # r \<and> i = takeWhile is_arg_char r \<and> i \<noteq> [] \<and>
              (\<exists>r'. dropWhile is_arg_char r = CHR ''>'' # r'))"
  using assms unfolding match_here_def Let_def
  by (simp split: if_splits list.splits)

lemma match_here_length: "match_here s = Some (b, i) \<Longrightarrow> length b < length s"
proof -
  assume m: "match_here s = Some (b, i)"
  from match_here_parts [OF m] obtain r where
    b: "b = takeWhile is_word_char s" and r: "dropWhile is_word_char s = CHR ''<'' # r"
    by blast
  have "length (takeWhile is_word_char s) + length (dropWhile is_word_char s) = length s"
    by (metis length_append takeWhile_dropWhile_id)
  with b r show ?thesis by simp
qed

lemma match_template_length: "match_template s = Some (b, i) \<Longrightarrow> length b < length s"
proof (induction s)
  case Nil
  then show ?case by simp
next
  case (Cons c cs)
  show ?case
  proof (cases "match_here (c # cs)")
    case None
    with Cons show ?thesis by fastforce
  next
    case (Some m)
    with Cons.prems have "match_here (c # cs) = Some (b, i)" by simp
    then show ?thesis by (rule match_here_length)
  qed
qed

text \<open>
  \<^verbatim>\<open>GetType\<close>, lines 562-597.  The result is the state after the call and either an
  exception or the returned reference (\<open>None\<close> for \<^verbatim>\<open>null\<close>).  The assignment
  \<open>inst.typename = typename\<close> comes before the test \<open>if (!inst)\<close> in the source, so a
  \<^verbatim>\<open>null\<close> from \<open>createTemplateInstance\<close> raises there.
\<close>

function GetType :: "state \<Rightarrow> string \<Rightarrow> state \<times> (error + addr option)" where
  "GetType st typename0 =
     (let typename = CleanTypeName typename0 in
      case fmlookup (database st) typename of
        Some foundType \<Rightarrow> (st, Inr (Some foundType))
      | None \<Rightarrow>
          if CHR ''<'' \<in> set typename then
            (case match_template typename of
               None \<Rightarrow> (st, Inr None)
             | Some (basetype, inner) \<Rightarrow>
                 (let subtypes = map trim (split_comma inner) in
                  case GetType st basetype of
                    (st1, Inl e) \<Rightarrow> (st1, Inl e)
                  | (st1, Inr None) \<Rightarrow> (st1, Inr None)
                  | (st1, Inr (Some dbbasetype)) \<Rightarrow>
                      (case DBType_createTemplateInstance (heap st1 dbbasetype) subtypes of
                         Inl e \<Rightarrow> (st1, Inl e)
                       | Inr None \<Rightarrow> (st1, Inl TypeError)
                       | Inr (Some inst) \<Rightarrow>
                           (let a = nextaddr st1 in
                            (st1 \<lparr> heap := (heap st1) (a := inst \<lparr> typename := typename \<rparr>),
                                   nextaddr := Suc a,
                                   database := fmupd typename a (database st1) \<rparr>,
                             Inr (Some a))))))
          else (st, Inr None))"
  by pat_completeness auto
termination
proof (relation "measure (\<lambda>(st, n). length n)")
  show "wf (measure (\<lambda>(st, n). length n))" by simp
next
  fix st :: state and typename0 x xa :: string and x2 :: "string \<times> string" and xb y :: string
  assume "x = CleanTypeName typename0" and "match_template x = Some x2" and "(xb, y) = x2"
  then have "length xb < length (CleanTypeName typename0)"
    using match_template_length [of x xb y] by simp
  also have "\<dots> \<le> length typename0" by (rule length_CleanTypeName_le)
  finally show "((st, xb), (st, typename0)) \<in> measure (\<lambda>(st, n). length n)" by simp
qed

declare GetType.simps [simp del]

section \<open>Inheritance resolver\<close>

text \<open>Truthiness of an optional string (\<^verbatim>\<open>if (this.supertype)\<close>): set and not empty.\<close>

definition truthy_str :: "string option \<Rightarrow> bool" where
  "truthy_str s = (case s of None \<Rightarrow> False | Some x \<Rightarrow> x \<noteq> [])"

text \<open>\<^verbatim>\<open>hasExtendTypes\<close>, lines 343-350; an array, even an empty one, is truthy.\<close>

definition hasExtendTypes :: "DBType \<Rightarrow> bool" where
  "hasExtendTypes this = (if truthy_str (supertype this) then True
                          else if siblingTypes this \<noteq> None then True else False)"

text \<open>\<^verbatim>\<open>if (db && !extend.includes(db)) extend.push(db)\<close>: references are compared
  by identity, that is, by address.  The source's array \<open>extend\<close> is \<open>ext\<close> below.\<close>

definition push_new :: "addr list \<Rightarrow> addr option \<Rightarrow> addr list" where
  "push_new ext r =
     (case r of
        None \<Rightarrow> ext
      | Some a \<Rightarrow> if a \<in> set ext then ext else ext @ [a])"

text \<open>The supertype part of one round of the loop of \<^verbatim>\<open>getCombineTypesList\<close>
  (lines 383-388).\<close>

definition combine_super :: "state \<Rightarrow> addr list \<Rightarrow> addr \<Rightarrow> state \<times> (error + addr list)" where
  "combine_super st ext checkType =
     (case supertype (heap st checkType) of
        None \<Rightarrow> (st, Inr ext)
      | Some s \<Rightarrow>
          if s = [] then (st, Inr ext)
          else (case GetType st s of
                  (st1, Inl e) \<Rightarrow> (st1, Inl e)
                | (st1, Inr dbsuper) \<Rightarrow> (st1, Inr (push_new ext dbsuper))))"

text \<open>The loop over \<open>checkType.siblingTypes\<close> (lines 392-397).\<close>

fun combine_siblings :: "state \<Rightarrow> addr list \<Rightarrow> string list \<Rightarrow> state \<times> (error + addr list)" where
  "combine_siblings st ext [] = (st, Inr ext)"
| "combine_siblings st ext (sibling # rest) =
     (case GetType st sibling of
        (st1, Inl e) \<Rightarrow> (st1, Inl e)
      | (st1, Inr dbsibling) \<Rightarrow> combine_siblings st1 (push_new ext dbsibling) rest)"

text \<open>One round of the \<^verbatim>\<open>while\<close> loop, for the type at \<open>checkIndex\<close>.\<close>

definition combine_round :: "state \<Rightarrow> addr list \<Rightarrow> addr \<Rightarrow> state \<times> (error + addr list)" where
  "combine_round st ext checkType =
     (case combine_super st ext checkType of
        (st1, Inl e) \<Rightarrow> (st1, Inl e)
      | (st1, Inr ext1) \<Rightarrow>
          (case siblingTypes (heap st1 checkType) of
             None \<Rightarrow> (st1, Inr ext1)
           | Some siblings \<Rightarrow> combine_siblings st1 ext1 siblings))"

text \<open>
  The \<^verbatim>\<open>while (checkIndex < extend.length)\<close> loop of \<^verbatim>\<open>getCombineTypesList\<close>,
  lines 375-404.  Nothing in its form bounds the number of rounds, so it is a partial
  function: \<open>None\<close> is a loop that never ends.
\<close>

partial_function (option) combine_loop ::
    "state \<Rightarrow> addr list \<Rightarrow> nat \<Rightarrow> (state \<times> (error + addr list)) option" where
  "combine_loop st ext checkIndex =
     (if checkIndex < length ext then
        (case combine_round st ext (ext ! checkIndex) of
           (st1, Inl e) \<Rightarrow> Some (st1, Inl e)
         | (st1, Inr ext1) \<Rightarrow> combine_loop st1 ext1 (checkIndex + 1))
      else Some (st, Inr ext))"

definition getCombineTypesList :: "state \<Rightarrow> addr \<Rightarrow> (state \<times> (error + addr list)) option" where
  "getCombineTypesList st this = combine_loop st [this] 0"

text \<open>\<^verbatim>\<open>getMethod(name, false)\<close>: the loop over the type's own methods, lines 480-489.\<close>

definition getMethod_own :: "DBType \<Rightarrow> string \<Rightarrow> DBMethod option" where
  "getMethod_own this name = find (\<lambda>func. m_name func = name) (methods this)"

text \<open>The loop over the combination list, lines 494-499.\<close>

fun getMethod_extend :: "state \<Rightarrow> addr list \<Rightarrow> string \<Rightarrow> DBMethod option" where
  "getMethod_extend st [] name = None"
| "getMethod_extend st (ext # rest) name =
     (case getMethod_own (heap st ext) name of
        Some mth \<Rightarrow> Some mth
      | None \<Rightarrow> getMethod_extend st rest name)"

text \<open>\<^verbatim>\<open>getMethod\<close>, lines 478-502.  The result is \<open>None\<close> when the walk over the
  bases does not end, else the state after the call with the exception or the method
  found (\<open>Inr None\<close> for \<^verbatim>\<open>null\<close>).\<close>

definition getMethod ::
    "state \<Rightarrow> addr \<Rightarrow> string \<Rightarrow> bool \<Rightarrow> (state \<times> (error + DBMethod option)) option" where
  "getMethod st this name recurse =
     (case getMethod_own (heap st this) name of
        Some func \<Rightarrow> Some (st, Inr (Some func))
      | None \<Rightarrow>
          if \<not> recurse then Some (st, Inr None)
          else if \<not> hasExtendTypes (heap st this) then Some (st, Inr None)
          else (case getCombineTypesList st this of
                  None \<Rightarrow> None
                | Some (st1, Inl e) \<Rightarrow> Some (st1, Inl e)
                | Some (st1, Inr ext) \<Rightarrow> Some (st1, Inr (getMethod_extend st1 ext name))))"

text \<open>\<^verbatim>\<open>getPropertyAccessorType\<close>, lines 443-452.\<close>

definition getPropertyAccessorType ::
    "state \<Rightarrow> addr \<Rightarrow> string \<Rightarrow> (state \<times> (error + string option)) option" where
  "getPropertyAccessorType st this name =
     (case getMethod st this (''get_'' @ name) True of
        None \<Rightarrow> None
      | Some (st1, Inl e) \<Rightarrow> Some (st1, Inl e)
      | Some (st1, Inr (Some getter)) \<Rightarrow> Some (st1, Inr (Some (m_returnType getter)))
      | Some (st1, Inr None) \<Rightarrow>
          (case getMethod st1 this (''set_'' @ name) True of
             None \<Rightarrow> None
           | Some (st2, Inl e) \<Rightarrow> Some (st2, Inl e)
           | Some (st2, Inr None) \<Rightarrow> Some (st2, Inr None)
           | Some (st2, Inr (Some setter)) \<Rightarrow>
               (if length (m_args setter) \<ge> 1
                then Some (st2, Inr (Some (a_typename (hd (m_args setter)))))
                else Some (st2, Inr None))))"

section \<open>Namespaces\<close>

text \<open>\<^verbatim>\<open>resolveNamespace\<close>, lines 316-327: writes the cache fields of the object.
  \<open>database.get(otherType) != null\<close> holds exactly when the map has the key.\<close>

definition resolveNamespace :: "state \<Rightarrow> addr \<Rightarrow> state" where
  "resolveNamespace st this =
     (let t = heap st this;
          ns = startsWith (typename t) ''__'';
          t1 = t \<lparr> isNS := Some ns, namespaceResolved := Some True \<rparr>;
          t2 = (if ns then
                  (let otherType = drop 2 (typename t) in
                   t1 \<lparr> shadowedNamespace := Some (fmlookup (database st) otherType \<noteq> None),
                        rawName := Some otherType \<rparr>)
                else t1)
      in st \<lparr> heap := (heap st) (this := t2) \<rparr>)"

text \<open>\<^verbatim>\<open>isNamespace\<close>, lines 329-334.  A flag that is unset is falsy.\<close>

definition isNamespace :: "state \<Rightarrow> addr \<Rightarrow> state \<times> bool option" where
  "isNamespace st this =
     (let st1 = (if namespaceResolved (heap st this) \<noteq> Some True
                 then resolveNamespace st this else st)
      in (st1, isNS (heap st1 this)))"

text \<open>JavaScript's \<^verbatim>\<open>a && b\<close> on flags that may be unset.\<close>

definition js_and :: "bool option \<Rightarrow> bool option \<Rightarrow> bool option" where
  "js_and a b = (if a = Some True then b else a)"

text \<open>\<^verbatim>\<open>isShadowedNamespace\<close>, lines 336-341.\<close>

definition isShadowedNamespace :: "state \<Rightarrow> addr \<Rightarrow> state \<times> bool option" where
  "isShadowedNamespace st this =
     (let st1 = (if namespaceResolved (heap st this) \<noteq> Some True
                 then resolveNamespace st this else st)
      in (st1, js_and (isNS (heap st1 this)) (shadowedNamespace (heap st1 this))))"

section \<open>Ingestion and removal\<close>

text \<open>
  \<^verbatim>\<open>FormatDocumentationComment\<close>, lines 639-647.  The first replacement turns every
  match of: one or more of CR/LF, any blanks (space, TAB), one or more asterisks, any
  blanks, into a line feed.  The second pattern is anchored at the start of the text
  (no multi-line flag): blanks, asterisks, blanks, one or more of CR/LF, replaced by a
  space.  Adjacent classes are disjoint, so the greedy match is the only match at a
  position.
\<close>

definition is_nl :: "char \<Rightarrow> bool" where
  "is_nl c = (c = CHR 0x0D \<or> c = CHR 0x0A)"

definition is_blank :: "char \<Rightarrow> bool" where
  "is_blank c = (c = CHR '' '' \<or> c = CHR 0x09)"

definition is_star :: "char \<Rightarrow> bool" where
  "is_star c = (c = CHR ''*'')"

text \<open>A match of the first pattern at the head of \<open>s\<close>: the text after the match.\<close>

definition match_star_end :: "string \<Rightarrow> string option" where
  "match_star_end s =
     (if takeWhile is_nl s = [] then None
      else (let r2 = dropWhile is_blank (dropWhile is_nl s) in
            if takeWhile is_star r2 = [] then None
            else Some (dropWhile is_blank (dropWhile is_star r2))))"

lemma match_star_end_length: "match_star_end s = Some r \<Longrightarrow> length r < length s"
proof -
  assume m: "match_star_end s = Some r"
  then have ne: "takeWhile is_nl s \<noteq> []"
    and r: "r = dropWhile is_blank (dropWhile is_star (dropWhile is_blank (dropWhile is_nl s)))"
    by (auto simp: match_star_end_def Let_def split: if_splits)
  have "length r \<le> length (dropWhile is_nl s)"
    unfolding r
    by (meson length_dropWhile_le order_trans)
  moreover have "length (takeWhile is_nl s) + length (dropWhile is_nl s) = length s"
    by (metis length_append takeWhile_dropWhile_id)
  moreover have "0 < length (takeWhile is_nl s)" using ne by simp
  ultimately show ?thesis by linarith
qed

function replace_star_end :: "string \<Rightarrow> string" where
  "replace_star_end [] = []"
| "replace_star_end (c # cs) =
     (case match_star_end (c # cs) of
        Some rest \<Rightarrow> CHR 0x0A # replace_star_end rest
      | None \<Rightarrow> c # replace_star_end cs)"
  by pat_completeness auto
termination
  by (relation "measure length") (auto dest: match_star_end_length)

definition replace_star_start :: "string \<Rightarrow> string" where
  "replace_star_start s =
     (let r2 = dropWhile is_blank s in
      if takeWhile is_star r2 = [] then s
      else (let r4 = dropWhile is_blank (dropWhile is_star r2) in
            if takeWhile is_nl r4 = [] then s
            else CHR '' '' # dropWhile is_nl r4))"

definition FormatDocumentationComment :: "string \<Rightarrow> string" where
  "FormatDocumentationComment doc = trim (replace_star_start (replace_star_end doc))"

text \<open>
  The JSON of a reflection dump, as the \<open>fromJSON\<close> methods read it: an optional key
  is an option, an object iterated with \<^verbatim>\<open>for (key in ...)\<close> is the list of its
  entries in iteration order, and a property's value is the array
  \<open>[typename, documentation?]\<close>.
\<close>

record j_property =
  jp_type :: string
  jp_doc :: "string option"

record j_arg =
  ja_type :: string
  ja_name :: "string option"
  ja_default :: "string option"

record j_method =
  jm_name :: string
  jm_return :: "string option"
  jm_args :: "j_arg list option"
  jm_doc :: "string option"
  jm_isConstructor :: "bool option"
  jm_const :: "bool option"
  jm_event :: "bool option"

record j_type =
  jt_properties :: "(string \<times> j_property) list"
  jt_methods :: "(string \<times> j_method) list"
  jt_subtypes :: "string list option"
  jt_supertype :: "string option"
  jt_inherits :: "string option"
  jt_doc :: "string option"
  jt_isStruct :: "bool option"
  jt_isEnum :: "bool option"

text \<open>\<^verbatim>\<open>DBProperty.fromJSON\<close>, lines 11-20.\<close>

definition DBProperty_fromJSON :: "string \<Rightarrow> j_property \<Rightarrow> DBProperty" where
  "DBProperty_fromJSON name input =
     \<lparr> p_name = name, p_typename = jp_type input,
       p_documentation = map_option FormatDocumentationComment (jp_doc input),
       p_isProtected = Some False, p_isPrivate = Some False \<rparr>"

text \<open>\<^verbatim>\<open>DBArg.fromJSON\<close>, lines 61-66.\<close>

definition DBArg_fromJSON :: "j_arg \<Rightarrow> DBArg" where
  "DBArg_fromJSON input =
     \<lparr> a_name = ja_name input, a_typename = ja_type input,
       a_defaultvalue = ja_default input \<rparr>"

text \<open>\<^verbatim>\<open>DBMethod.fromJSON\<close>, lines 116-156.\<close>

definition DBMethod_fromJSON :: "j_method \<Rightarrow> DBMethod" where
  "DBMethod_fromJSON input =
     \<lparr> m_name = jm_name input,
       m_returnType = (case jm_return input of Some r \<Rightarrow> r | None \<Rightarrow> ''void''),
       m_args = (case jm_args input of Some as \<Rightarrow> map DBArg_fromJSON as | None \<Rightarrow> []),
       m_argumentStr = None,
       m_documentation = map_option FormatDocumentationComment (jm_doc input),
       m_declaredModule = None,
       m_isProtected = False, m_isPrivate = False,
       m_isConstructor = (case jm_isConstructor input of Some b \<Rightarrow> b | None \<Rightarrow> False),
       m_isEvent = (case jm_event input of Some b \<Rightarrow> b | None \<Rightarrow> False),
       m_isConst = (case jm_const input of Some b \<Rightarrow> b | None \<Rightarrow> False) \<rparr>"

text \<open>\<^verbatim>\<open>DBType.fromJSON\<close>, lines 263-314, on a new \<open>DBType\<close>: the fields it does not
  assign, \<open>declaredModule\<close> among them, stay unset.\<close>

definition DBType_fromJSON :: "string \<Rightarrow> j_type \<Rightarrow> DBType" where
  "DBType_fromJSON name input =
     \<lparr> typename = name,
       supertype = jt_inherits input,
       properties = map (\<lambda>(key, v). DBProperty_fromJSON key v) (jt_properties input),
       methods = map (\<lambda>(key, v). DBMethod_fromJSON v) (jt_methods input),
       unrealsuper = jt_supertype input,
       documentation = map_option FormatDocumentationComment (jt_doc input),
       isStruct = (case jt_isStruct input of Some b \<Rightarrow> Some b | None \<Rightarrow> Some False),
       isNS = None,
       isEnum = (case jt_isEnum input of Some b \<Rightarrow> Some b | None \<Rightarrow> Some False),
       rawName = None, namespaceResolved = None, shadowedNamespace = None,
       isDelegate = False, isEvent = False, isPrimitive = False,
       declaredModule = None,
       siblingTypes = None,
       subTypes = jt_subtypes input \<rparr>"

text \<open>\<^verbatim>\<open>AddTypesFromUnreal\<close>, lines 623-632.\<close>

fun AddTypesFromUnreal :: "state \<Rightarrow> (string \<times> j_type) list \<Rightarrow> state" where
  "AddTypesFromUnreal st [] = st"
| "AddTypesFromUnreal st ((key, v) # rest) =
     (let a = nextaddr st in
      AddTypesFromUnreal
        (st \<lparr> heap := (heap st) (a := DBType_fromJSON key v),
              nextaddr := Suc a,
              database := fmupd key a (database st) \<rparr>) rest)"

text \<open>
  \<^verbatim>\<open>RemoveTypesInModule\<close>, lines 649-656: every entry of the map is visited once and
  deleted when its type's \<open>declaredModule\<close> equals the argument; an unset
  \<open>declaredModule\<close> equals no string.
\<close>

definition RemoveTypesInModule :: "state \<Rightarrow> string \<Rightarrow> state" where
  "RemoveTypesInModule st module =
     st \<lparr> database :=
            fmfilter (\<lambda>name. case fmlookup (database st) name of
                                None \<Rightarrow> True
                              | Some dbtype \<Rightarrow> declaredModule (heap st dbtype) \<noteq> Some module)
                     (database st) \<rparr>"

section \<open>Notions used in the statements\<close>

text \<open>A name made of the characters of the first capture group only (an identifier).\<close>

definition wordname :: "string \<Rightarrow> bool" where
  "wordname s = (s \<noteq> [] \<and> (\<forall>c \<in> set s. is_word_char c))"

text \<open>The state after \<open>GetType\<close> has stored a new instance under \<open>key\<close>.\<close>

definition alloc_instance :: "state \<Rightarrow> string \<Rightarrow> DBType \<Rightarrow> state" where
  "alloc_instance st key inst =
     st \<lparr> heap := (heap st) (nextaddr st := inst \<lparr> typename := key \<rparr>),
          nextaddr := Suc (nextaddr st),
          database := fmupd key (nextaddr st) (database st) \<rparr>"


text \<open>Every reference held by the map is to an object that has been allocated.\<close>

definition wf_state :: "state \<Rightarrow> bool" where
  "wf_state st = (\<forall>a \<in> fmran' (database st). a < nextaddr st)"

text \<open>\<open>st'\<close> comes after \<open>st\<close>: objects are only added, none that exists is written.\<close>

definition frame :: "state \<Rightarrow> state \<Rightarrow> bool" where
  "frame st st' =
     (nextaddr st \<le> nextaddr st' \<and> (\<forall>a. a < nextaddr st \<longrightarrow> heap st' a = heap st a) \<and>
      (wf_state st \<longrightarrow> wf_state st'))"

text \<open>
  The supertype of \<open>c\<close> does not win the lookup of \<open>name\<close>: \<open>c\<close> has no supertype, or
  the supertype resolves to no type, or it resolves to a type that does not declare a
  method of that name itself; \<open>st0\<close> is the state after its resolution.
\<close>

definition supertype_without :: "state \<Rightarrow> addr \<Rightarrow> string \<Rightarrow> state \<Rightarrow> bool" where
  "supertype_without st c name st0 =
     (case supertype (heap st c) of
        None \<Rightarrow> st0 = st
      | Some s \<Rightarrow>
          if s = [] then st0 = st
          else (case GetType st s of
                  (st1, Inl e) \<Rightarrow> False
                | (st1, Inr None) \<Rightarrow> st0 = st1
                | (st1, Inr (Some dbsuper)) \<Rightarrow>
                    st0 = st1 \<and> getMethod_own (heap st1 dbsuper) name = None))"

text \<open>
  The type name that a template instance carries in place of \<open>t\<close>: \<open>t\<close> without its
  decoration, or the actual type of the first placeholder that equals it.
\<close>

definition subst_name :: "string list \<Rightarrow> string list \<Rightarrow> string \<Rightarrow> string" where
  "subst_name templateTypes actualTypes t =
     (case map_of (zip templateTypes actualTypes) (CleanTypeName t) of
        Some a \<Rightarrow> a
      | None \<Rightarrow> CleanTypeName t)"

definition inst_property :: "string list \<Rightarrow> string list \<Rightarrow> DBProperty \<Rightarrow> DBProperty" where
  "inst_property tts acts p =
     \<lparr> p_name = p_name p, p_typename = subst_name tts acts (p_typename p),
       p_documentation = None, p_isProtected = None, p_isPrivate = None \<rparr>"

definition inst_arg :: "string list \<Rightarrow> string list \<Rightarrow> DBArg \<Rightarrow> DBArg" where
  "inst_arg tts acts a =
     \<lparr> a_name = a_name a, a_typename = subst_name tts acts (a_typename a),
       a_defaultvalue = a_defaultvalue a \<rparr>"

definition inst_method :: "string list \<Rightarrow> string list \<Rightarrow> DBMethod \<Rightarrow> DBMethod" where
  "inst_method tts acts m =
     \<lparr> m_name = m_name m, m_returnType = subst_name tts acts (m_returnType m),
       m_args = map (inst_arg tts acts) (m_args m),
       m_argumentStr = m_argumentStr m, m_documentation = m_documentation m,
       m_declaredModule = None, m_isProtected = False, m_isPrivate = False,
       m_isConstructor = False, m_isEvent = False, m_isConst = False \<rparr>"

text \<open>
  For the termination of the flattening walk: the names a type refers to, the objects
  the walk can see, the condition that all their names (cleaned) lie in a set \<open>K\<close>, and
  the bound on the length of the list: the objects in sight plus the names of \<open>K\<close>
  that the map does not hold yet (each can give rise to one more object).
\<close>

definition names_of :: "DBType \<Rightarrow> string set" where
  "names_of t =
     set_option (supertype t) \<union> (case siblingTypes t of None \<Rightarrow> {} | Some l \<Rightarrow> set l)"

definition objs :: "state \<Rightarrow> addr list \<Rightarrow> addr set" where
  "objs st ext = fmran' (database st) \<union> set ext"

definition names_within :: "string set \<Rightarrow> state \<Rightarrow> addr list \<Rightarrow> bool" where
  "names_within K st ext = (\<forall>a \<in> objs st ext. CleanTypeName ` names_of (heap st a) \<subseteq> K)"

definition bound :: "string set \<Rightarrow> state \<Rightarrow> addr list \<Rightarrow> nat" where
  "bound K st ext = card (objs st ext) + card (K - fmdom' (database st))"

text \<open>An entry as \<open>AddTypesFromUnreal\<close> leaves it: present, with no \<open>declaredModule\<close>.\<close>

definition engine_entry :: "state \<Rightarrow> string \<Rightarrow> bool" where
  "engine_entry st key =
     (case fmlookup (database st) key of
        None \<Rightarrow> False
      | Some a \<Rightarrow> a < nextaddr st \<and> declaredModule (heap st a) = None)"

section \<open>Example registries\<close>

text \<open>\<open>ex_unused\<close> fills the addresses that hold no object; \<open>ex_method\<close> is a method with
  a name and a return type and nothing else.\<close>

definition ex_unused :: DBType where
  "ex_unused =
     \<lparr> typename = [], supertype = None, properties = [], methods = [],
       unrealsuper = None, documentation = None, isStruct = None, isNS = None,
       isEnum = None, rawName = None, namespaceResolved = None, shadowedNamespace = None,
       isDelegate = False, isEvent = False, isPrimitive = False, declaredModule = None,
       siblingTypes = None, subTypes = None \<rparr>"

definition ex_method :: "string \<Rightarrow> string \<Rightarrow> DBArg list \<Rightarrow> DBMethod" where
  "ex_method n r as =
     \<lparr> m_name = n, m_returnType = r, m_args = as, m_argumentStr = None,
       m_documentation = None, m_declaredModule = None, m_isProtected = False,
       m_isPrivate = False, m_isConstructor = False, m_isEvent = False, m_isConst = False \<rparr>"

text \<open>A registry with one generic struct \<open>Array\<close>, placeholder list \<open>[T]\<close>, declared by
  module \<open>moduleA\<close>.\<close>

definition ex_Array :: DBType where
  "ex_Array =
     ex_unused \<lparr> typename := ''Array'',
       properties := [\<lparr> p_name = ''value'', p_typename = ''T'',
                        p_documentation = Some ''the element'',
                        p_isProtected = Some False, p_isPrivate = Some False \<rparr>,
                      \<lparr> p_name = ''owner'', p_typename = ''const Foo&'',
                        p_documentation = None,
                        p_isProtected = Some False, p_isPrivate = Some False \<rparr>],
       methods := [(ex_method ''Add'' ''void''
                      [\<lparr> a_name = Some ''item'', a_typename = ''const T&'',
                         a_defaultvalue = None \<rparr>])
                     \<lparr> m_documentation := Some ''Appends an element'',
                       m_isProtected := True \<rparr>],
       documentation := Some ''A dynamic array'',
       isStruct := Some True, isEnum := Some False,
       declaredModule := Some ''moduleA'',
       subTypes := Some [''T''] \<rparr>"

definition ex_registry :: state where
  "ex_registry =
     \<lparr> heap = (\<lambda>_. ex_unused) (0 := ex_Array), nextaddr = 1,
       database = fmupd ''Array'' 0 fmempty \<rparr>"

text \<open>What \<open>createTemplateInstance\<close> makes of \<open>ex_Array\<close> for the actual type \<open>int\<close>.\<close>

definition ex_Array_int :: DBType where
  "ex_Array_int =
     ex_unused \<lparr> typename := ''Array'',
       properties := [\<lparr> p_name = ''value'', p_typename = ''int'',
                        p_documentation = None, p_isProtected = None, p_isPrivate = None \<rparr>,
                      \<lparr> p_name = ''owner'', p_typename = ''Foo'',
                        p_documentation = None, p_isProtected = None, p_isPrivate = None \<rparr>],
       methods := [(ex_method ''Add'' ''void''
                      [\<lparr> a_name = Some ''item'', a_typename = ''int'',
                         a_defaultvalue = None \<rparr>])
                     \<lparr> m_documentation := Some ''Appends an element'' \<rparr>],
       isEnum := Some False,
       declaredModule := Some ''moduleA'' \<rparr>"

text \<open>Two types that name each other as supertype; \<open>B\<close> also lists both as siblings.\<close>

definition ex_cycle :: state where
  "ex_cycle =
     \<lparr> heap = (\<lambda>_. ex_unused)
         (0 := ex_unused \<lparr> typename := ''A'', supertype := Some ''B'' \<rparr>,
          1 := ex_unused \<lparr> typename := ''B'', supertype := Some ''A'',
                            siblingTypes := Some [''A'', ''B''] \<rparr>),
       nextaddr = 2,
       database = fmupd ''B'' 1 (fmupd ''A'' 0 fmempty) \<rparr>"

text \<open>\<open>C\<close> with the siblings \<open>X\<close> and \<open>Y\<close>, which both declare \<open>bar\<close>; the return type
  tells the declarations apart.  In \<open>ex_siblings_super\<close>, \<open>C\<close> has the supertype \<open>S\<close>
  as well, which declares \<open>bar\<close> too; in \<open>ex_siblings_base\<close>, \<open>C\<close> has the supertype \<open>S\<close>,
  which declares \<open>foo\<close> only.\<close>

definition ex_siblings :: state where
  "ex_siblings =
     \<lparr> heap = (\<lambda>_. ex_unused)
         (0 := ex_unused \<lparr> typename := ''C'', siblingTypes := Some [''X'', ''Y''] \<rparr>,
          1 := ex_unused \<lparr> typename := ''X'', methods := [ex_method ''bar'' ''FromX'' []] \<rparr>,
          2 := ex_unused \<lparr> typename := ''Y'', methods := [ex_method ''bar'' ''FromY'' []] \<rparr>),
       nextaddr = 3,
       database = fmupd ''Y'' 2 (fmupd ''X'' 1 (fmupd ''C'' 0 fmempty)) \<rparr>"

definition ex_siblings_super :: state where
  "ex_siblings_super =
     \<lparr> heap = (\<lambda>_. ex_unused)
         (0 := ex_unused \<lparr> typename := ''C'', supertype := Some ''S'',
                            siblingTypes := Some [''X'', ''Y''] \<rparr>,
          1 := ex_unused \<lparr> typename := ''X'', methods := [ex_method ''bar'' ''FromX'' []] \<rparr>,
          2 := ex_unused \<lparr> typename := ''Y'', methods := [ex_method ''bar'' ''FromY'' []] \<rparr>,
          3 := ex_unused \<lparr> typename := ''S'', methods := [ex_method ''bar'' ''FromS'' []] \<rparr>),
       nextaddr = 4,
       database = fmupd ''S'' 3 (fmupd ''Y'' 2 (fmupd ''X'' 1 (fmupd ''C'' 0 fmempty))) \<rparr>"

definition ex_siblings_base :: state where
  "ex_siblings_base =
     \<lparr> heap = (\<lambda>_. ex_unused)
         (0 := ex_unused \<lparr> typename := ''C'', supertype := Some ''S'',
                            siblingTypes := Some [''X'', ''Y''] \<rparr>,
          1 := ex_unused \<lparr> typename := ''X'', methods := [ex_method ''bar'' ''FromX'' []] \<rparr>,
          2 := ex_unused \<lparr> typename := ''Y'', methods := [ex_method ''bar'' ''FromY'' []] \<rparr>,
          3 := ex_unused \<lparr> typename := ''S'', methods := [ex_method ''foo'' ''FromS'' []] \<rparr>),
       nextaddr = 4,
       database = fmupd ''S'' 3 (fmupd ''Y'' 2 (fmupd ''X'' 1 (fmupd ''C'' 0 fmempty))) \<rparr>"

text \<open>\<open>P\<close> declares the setter \<open>set_x\<close> and has the supertype \<open>Array<int,float>\<close>, two
  type names for the one placeholder of \<open>Array\<close>.\<close>

definition ex_broken_base :: state where
  "ex_broken_base =
     \<lparr> heap = (\<lambda>_. ex_unused)
         (0 := ex_Array,
          1 := ex_unused \<lparr> typename := ''P'', supertype := Some ''Array<int,float>'',
                            methods := [ex_method ''set_x'' ''void''
                                          [\<lparr> a_name = Some ''value'', a_typename = ''int'',
                                             a_defaultvalue = None \<rparr>]] \<rparr>),
       nextaddr = 2,
       database = fmupd ''P'' 1 (fmupd ''Array'' 0 fmempty) \<rparr>"

text \<open>A namespace \<open>__Math\<close> next to a type \<open>Math\<close>, and a namespace \<open>__Gameplay\<close>
  without such a type.\<close>

definition ex_Math :: state where
  "ex_Math =
     \<lparr> heap = (\<lambda>_. ex_unused) (0 := ex_unused \<lparr> typename := ''__Math'' \<rparr>,
                                1 := ex_unused \<lparr> typename := ''Math'' \<rparr>,
                                2 := ex_unused \<lparr> typename := ''__Gameplay'' \<rparr>),
       nextaddr = 3,
       database = fmupd ''__Gameplay'' 2 (fmupd ''Math'' 1 (fmupd ''__Math'' 0 fmempty)) \<rparr>"

text \<open>A generic namespace \<open>__Arr\<close> next to a type \<open>Arr\<close>; in \<open>ex_generic_ns_queried\<close> the
  shadow status of \<open>__Arr\<close> has been queried and then \<open>__Arr<int>\<close> looked up.\<close>

definition ex_generic_ns :: state where
  "ex_generic_ns =
     \<lparr> heap = (\<lambda>_. ex_unused)
         (0 := ex_unused \<lparr> typename := ''__Arr'', subTypes := Some [''T''] \<rparr>,
          1 := ex_unused \<lparr> typename := ''Arr'' \<rparr>),
       nextaddr = 2,
       database = fmupd ''Arr'' 1 (fmupd ''__Arr'' 0 fmempty) \<rparr>"

definition ex_generic_ns_queried :: state where
  "ex_generic_ns_queried =
     fst (GetType (fst (isShadowedNamespace ex_generic_ns 0)) ''__Arr<int>'')"

text \<open>A reflection dump with one type.\<close>

definition ex_dump :: "(string \<times> j_type) list" where
  "ex_dump =
     [(''AActor'',
       \<lparr> jt_properties = [(''Tags'', \<lparr> jp_type = ''TArray<FName>'', jp_doc = None \<rparr>)],
         jt_methods = [(''0'', \<lparr> jm_name = ''GetOwner'', jm_return = Some ''AActor'',
                                 jm_args = None, jm_doc = None, jm_isConstructor = None,
                                 jm_const = Some True, jm_event = None \<rparr>)],
         jt_subtypes = None, jt_supertype = Some ''UObject'', jt_inherits = None,
         jt_doc = Some ''An actor'', jt_isStruct = None, jt_isEnum = None \<rparr>)]"

section \<open>Properties of the lookup\<close>

lemma word_not_space: "is_word_char c \<Longrightarrow> \<not> is_space c"
  by (auto simp: is_word_char_def is_space_def Let_def)

lemma word_char_consts:
  "\<not> is_word_char (CHR '' '')" "\<not> is_word_char (CHR ''&'')" "\<not> is_word_char (CHR ''@'')"
  "\<not> is_word_char (CHR ''<'')" "\<not> is_word_char (CHR ''>'')"
  by (simp_all add: is_word_char_def)

lemma arg_char_consts:
  "\<not> is_arg_char (CHR ''<'')" "\<not> is_arg_char (CHR ''>'')"
  by (simp_all add: is_arg_char_def is_word_char_def is_space_def)

lemma trim_id:
  assumes "s \<noteq> []" "\<not> is_space (hd s)" "\<not> is_space (last s)"
  shows "trim s = s"
proof -
  from assms have 1: "dropWhile is_space s = s"
    by (cases s) auto
  from assms have "rev s \<noteq> []" "\<not> is_space (hd (rev s))"
    by (simp_all add: hd_rev)
  then have 2: "dropWhile is_space (rev s) = rev s"
    by (cases "rev s") auto
  show ?thesis by (simp add: trim_def 1 2)
qed

lemma trim_wordname:
  assumes "wordname b"
  shows "trim b = b"
proof -
  from assms have "b \<noteq> []" "is_word_char (hd b)" "is_word_char (last b)"
    by (simp_all add: wordname_def)
  then show ?thesis
    by (intro trim_id) (auto dest: word_not_space)
qed

lemma CleanTypeName_wordname:
  assumes "wordname b"
  shows "CleanTypeName b = b"
proof -
  from assms have ne: "b \<noteq> []" and all: "\<forall>c \<in> set b. is_word_char c"
    by (simp_all add: wordname_def)
  from ne all have l: "is_word_char (last b)"
    by simp
  have t: "trim b = b"
    using assms by (rule trim_wordname)
  have "CHR '' '' \<notin> set b" using all word_char_consts(1) by blast
  moreover have "CHR '' '' \<in> set ''const ''" by simp
  ultimately have "take (length ''const '') b \<noteq> ''const ''"
    by (metis in_set_takeD)
  then have s: "\<not> startsWith b ''const ''" unfolding startsWith_def .
  have e1: "\<not> endsWith_char b (CHR ''&'')"
    using l word_char_consts(2) by (auto simp: endsWith_char_def)
  have e2: "\<not> endsWith_char b (CHR ''@'')"
    using l word_char_consts(3) by (auto simp: endsWith_char_def)
  show ?thesis by (simp add: CleanTypeName_def Let_def t s e1 e2)
qed

lemma match_here_wordname: "match_here s = Some (b, i) \<Longrightarrow> wordname b"
  using match_here_parts [of s b i]
  by (auto simp: wordname_def dest: set_takeWhileD)

lemma match_template_wordname: "match_template s = Some (b, i) \<Longrightarrow> wordname b"
  by (induction s) (auto split: option.splits dest: match_here_wordname)

lemma match_here_lt: "match_here s = Some (b, i) \<Longrightarrow> CHR ''<'' \<in> set s"
proof -
  assume "match_here s = Some (b, i)"
  from match_here_parts [OF this] obtain r where "dropWhile is_word_char s = CHR ''<'' # r"
    by blast
  then have "CHR ''<'' \<in> set (dropWhile is_word_char s)" by simp
  then show ?thesis by (rule set_dropWhileD)
qed

lemma match_template_lt: "match_template s = Some (b, i) \<Longrightarrow> CHR ''<'' \<in> set s"
  by (induction s) (auto split: option.splits dest: match_here_lt)

text \<open>Looking up a name without angle brackets reads the map and changes nothing.\<close>

lemma GetType_wordname:
  assumes "wordname b"
  shows "GetType st b = (st, Inr (fmlookup (database st) b))"
proof -
  have "CHR ''<'' \<notin> set b"
    using assms word_char_consts(4) by (auto simp: wordname_def)
  then show ?thesis
    by (subst GetType.simps) (simp add: CleanTypeName_wordname [OF assms] split: option.splits)
qed

lemma GetType_found:
  assumes "fmlookup (database st) (CleanTypeName n) = Some a"
  shows "GetType st n = (st, Inr (Some a))"
  by (subst GetType.simps) (simp add: assms Let_def)

lemma GetType_no_match:
  assumes "fmlookup (database st) (CleanTypeName n) = None"
      and "match_template (CleanTypeName n) = None"
  shows "GetType st n = (st, Inr None)"
  by (subst GetType.simps) (simp add: assms Let_def)

text \<open>The lookup of a name that is not in the map and has the generic form.\<close>

lemma GetType_template:
  assumes "fmlookup (database st) (CleanTypeName n) = None"
      and "match_template (CleanTypeName n) = Some (b, i)"
  shows "GetType st n =
     (case fmlookup (database st) b of
        None \<Rightarrow> (st, Inr None)
      | Some dbbasetype \<Rightarrow>
         (case DBType_createTemplateInstance (heap st dbbasetype) (map trim (split_comma i)) of
            Inl e \<Rightarrow> (st, Inl e)
          | Inr None \<Rightarrow> (st, Inl TypeError)
          | Inr (Some inst) \<Rightarrow>
              (st \<lparr> heap := (heap st) (nextaddr st := inst \<lparr> typename := CleanTypeName n \<rparr>),
                    nextaddr := Suc (nextaddr st),
                    database := fmupd (CleanTypeName n) (nextaddr st) (database st) \<rparr>,
               Inr (Some (nextaddr st)))))"
proof -
  have w: "wordname b" using assms(2) by (rule match_template_wordname)
  have lt: "CHR ''<'' \<in> set (CleanTypeName n)" using assms(2) by (rule match_template_lt)
  show ?thesis
    apply (subst GetType.simps)
    apply (simp only: Let_def assms lt if_True option.case prod.case GetType_wordname [OF w])
    apply (simp split: option.splits sum.splits)
    done
qed

text \<open>What a lookup can do: return what the map holds, or store one new instance.\<close>

lemma GetType_result:
  assumes "GetType st n = (st', r)"
  shows "(st' = st \<and> (\<forall>a. r = Inr (Some a) \<longrightarrow> fmlookup (database st) (CleanTypeName n) = Some a))
       \<or> (\<exists>b i base inst.
             fmlookup (database st) (CleanTypeName n) = None \<and>
             match_template (CleanTypeName n) = Some (b, i) \<and>
             fmlookup (database st) b = Some base \<and>
             DBType_createTemplateInstance (heap st base) (map trim (split_comma i)) = Inr (Some inst) \<and>
             st' = alloc_instance st (CleanTypeName n) inst \<and>
             r = Inr (Some (nextaddr st)))"
proof (cases "fmlookup (database st) (CleanTypeName n)")
  case (Some a)
  with assms show ?thesis by (auto simp: GetType_found)
next
  case None
  show ?thesis
  proof (cases "match_template (CleanTypeName n)")
    case N: None
    with None assms show ?thesis by (auto simp: GetType_no_match)
  next
    case (Some m)
    obtain b i where m: "m = (b, i)" by (cases m)
    note t = GetType_template [OF None Some [unfolded m]]
    show ?thesis
    proof (cases "fmlookup (database st) b")
      case N: None
      with assms t show ?thesis by auto
    next
      case S: (Some base)
      show ?thesis
      proof (cases "DBType_createTemplateInstance (heap st base) (map trim (split_comma i))")
        case (Inl e)
        with assms t S show ?thesis by auto
      next
        case (Inr oi)
        show ?thesis
        proof (cases oi)
          case N: None
          with assms t S Inr show ?thesis by auto
        next
          case (Some inst)
          with assms t S Inr have "st' = alloc_instance st (CleanTypeName n) inst"
            and "r = Inr (Some (nextaddr st))"
            by (simp_all add: alloc_instance_def)
          with None \<open>match_template (CleanTypeName n) = Some m\<close> m S Inr Some
          show ?thesis by blast
        qed
      qed
    qed
  qed
qed



section \<open>Properties of template instantiation\<close>

lemma createTemplateInstance_copied:
  assumes "DBType_createTemplateInstance t acts = Inr (Some inst)"
  shows "typename inst = typename t" "supertype inst = supertype t" "isNS inst = isNS t"
    "isEnum inst = isEnum t" "rawName inst = rawName t"
    "namespaceResolved inst = namespaceResolved t"
    "shadowedNamespace inst = shadowedNamespace t"
    "declaredModule inst = declaredModule t" "siblingTypes inst = siblingTypes t"
  using assms
  by (auto simp: DBType_createTemplateInstance_def split: option.splits if_splits sum.splits)

lemma ReplaceTemplateType_from_zip:
  assumes "i + length tts \<le> length acts"
  shows "ReplaceTemplateType_from i t tts acts =
           Some (case map_of (zip tts (drop i acts)) t of Some a \<Rightarrow> a | None \<Rightarrow> t)"
  using assms
proof (induction tts arbitrary: i)
  case Nil
  then show ?case by simp
next
  case (Cons x tts)
  then have i: "i < length acts" by simp
  then have d: "drop i acts = acts ! i # drop (Suc i) acts"
    by (simp add: Cons_nth_drop_Suc)
  from Cons.prems have "Suc i + length tts \<le> length acts" by simp
  from Cons.IH [OF this] i show ?case
    by (simp add: d)
qed

lemma ReplaceTemplateType_subst:
  assumes "length acts = length tts"
  shows "ReplaceTemplateType t tts acts = Some (subst_name tts acts t)"
  using ReplaceTemplateType_from_zip [of 0 tts acts "CleanTypeName t"] assms
  by (simp add: ReplaceTemplateType_def subst_name_def)

lemma collect_map:
  assumes "\<And>x. x \<in> set xs \<Longrightarrow> f x = Inr (g x)"
  shows "collect f xs = Inr (map g xs)"
  using assms by (induction xs) simp_all

lemma DBProperty_createTemplateInstance_eq:
  "length acts = length tts \<Longrightarrow>
   DBProperty_createTemplateInstance p tts acts = Inr (inst_property tts acts p)"
  by (simp add: DBProperty_createTemplateInstance_def ReplaceTemplateType_subst inst_property_def)

lemma DBArg_createTemplateInstance_eq:
  "length acts = length tts \<Longrightarrow>
   DBArg_createTemplateInstance a tts acts = Inr (inst_arg tts acts a)"
  by (simp add: DBArg_createTemplateInstance_def ReplaceTemplateType_subst inst_arg_def)

lemma DBMethod_createTemplateInstance_eq:
  "length acts = length tts \<Longrightarrow>
   DBMethod_createTemplateInstance m tts acts = Inr (inst_method tts acts m)"
  by (simp add: DBMethod_createTemplateInstance_def ReplaceTemplateType_subst inst_method_def
      collect_map [where g = "inst_arg tts acts"] DBArg_createTemplateInstance_eq)

lemma DBType_createTemplateInstance_eq:
  assumes "subTypes this = Some tts" "length acts = length tts"
  shows "DBType_createTemplateInstance this acts =
     Inr (Some \<lparr> typename = typename this, supertype = supertype this,
                 properties = map (inst_property tts acts) (properties this),
                 methods = map (inst_method tts acts) (methods this),
                 unrealsuper = None, documentation = None,
                 isStruct = None, isNS = isNS this, isEnum = isEnum this,
                 rawName = rawName this,
                 namespaceResolved = namespaceResolved this,
                 shadowedNamespace = shadowedNamespace this,
                 isDelegate = False, isEvent = False, isPrimitive = False,
                 declaredModule = declaredModule this,
                 siblingTypes = siblingTypes this,
                 subTypes = None \<rparr>)"
  using assms
  by (simp add: DBType_createTemplateInstance_def
      collect_map [where g = "inst_property tts acts"] DBProperty_createTemplateInstance_eq
      collect_map [where g = "inst_method tts acts"] DBMethod_createTemplateInstance_eq)

lemma createTemplateInstance_no_UndefinedTypeName:
  "DBType_createTemplateInstance this acts \<noteq> Inl UndefinedTypeName"
proof (cases "subTypes this")
  case None
  then show ?thesis by (simp add: DBType_createTemplateInstance_def)
next
  case (Some tts)
  show ?thesis
  proof (cases "length acts = length tts")
    case True
    from DBType_createTemplateInstance_eq [OF Some True] show ?thesis by simp
  next
    case False
    with Some show ?thesis by (simp add: DBType_createTemplateInstance_def)
  qed
qed

lemma GetType_no_UndefinedTypeName: "snd (GetType st n) \<noteq> Inl UndefinedTypeName"
proof -
  obtain st' r where g: "GetType st n = (st', r)" by (cases "GetType st n")
  have "r \<noteq> Inl UndefinedTypeName"
  proof (cases "fmlookup (database st) (CleanTypeName n)")
    case (Some a)
    with g show ?thesis by (auto simp: GetType_found)
  next
    case None
    show ?thesis
    proof (cases "match_template (CleanTypeName n)")
      case N: None
      with None g show ?thesis by (auto simp: GetType_no_match)
    next
      case (Some m)
      obtain b i where m: "m = (b, i)" by (cases m)
      from g createTemplateInstance_no_UndefinedTypeName show ?thesis
        unfolding GetType_template [OF None Some [unfolded m]]
        by (auto split: option.splits sum.splits)
    qed
  qed
  with g show ?thesis by simp
qed

lemma split_comma_wordname:
  assumes "CHR '','' \<notin> set c"
  shows "split_comma c = [c]"
  using assms by (induction c) auto

lemma wordname_no_comma: "wordname c \<Longrightarrow> CHR '','' \<notin> set c"
  by (auto simp: wordname_def is_word_char_def)

lemma word_is_arg: "is_word_char c \<Longrightarrow> is_arg_char c"
  by (simp add: is_arg_char_def)

lemma match_generic:
  assumes B: "wordname B" and c: "wordname c"
  shows "match_template (B @ ''<'' @ c @ ''>'') = Some (B, c)"
proof -
  define n where "n = B @ ''<'' @ c @ ''>''"
  from B have allB: "\<forall>x \<in> set B. is_word_char x" and neB: "B \<noteq> []" by (simp_all add: wordname_def)
  from c have allc: "\<forall>x \<in> set c. is_arg_char x" and nec: "c \<noteq> []"
    by (simp_all add: wordname_def word_is_arg)
  have t1: "takeWhile is_word_char n = B"
    unfolding n_def using allB word_char_consts(4) by (simp add: takeWhile_append2)
  have d1: "dropWhile is_word_char n = CHR ''<'' # (c @ ''>'')"
    unfolding n_def using allB word_char_consts(4) by (simp add: dropWhile_append2)
  have t2: "takeWhile is_arg_char (c @ ''>'') = c"
    using allc arg_char_consts(2) by (simp add: takeWhile_append2)
  have d2: "dropWhile is_arg_char (c @ ''>'') = ''>''"
    using allc arg_char_consts(2) by (simp add: dropWhile_append2)
  have "match_here n = Some (B, c)"
    using neB nec by (simp add: match_here_def t1 d1 t2 d2 Let_def)
  moreover have "n \<noteq> []" using neB by (simp add: n_def)
  ultimately have "match_template n = Some (B, c)" by (cases n) simp_all
  then show ?thesis by (simp only: n_def)
qed

lemma CleanTypeName_generic:
  assumes B: "wordname B" and c: "wordname c"
  shows "CleanTypeName (B @ ''<'' @ c @ ''>'') = B @ ''<'' @ c @ ''>''"
proof -
  define n where "n = B @ ''<'' @ c @ ''>''"
  from B have neB: "B \<noteq> []" and hB: "is_word_char (hd B)" by (simp_all add: wordname_def)
  have sp: "\<not> is_space (CHR ''>'')" by (simp add: is_space_def)
  have "n \<noteq> []" "hd n = hd B" "last n = CHR ''>''"
    using neB by (simp_all add: n_def)
  then have t: "trim n = n"
    using hB sp by (intro trim_id) (auto dest: word_not_space)
  have "CHR '' '' \<notin> set n"
    using B c word_char_consts(1) by (auto simp: wordname_def n_def)
  moreover have "CHR '' '' \<in> set ''const ''" by simp
  ultimately have "take (length ''const '') n \<noteq> ''const ''"
    by (metis in_set_takeD)
  then have s: "\<not> startsWith n ''const ''" unfolding startsWith_def .
  have e: "\<not> endsWith_char n (CHR ''&'')" "\<not> endsWith_char n (CHR ''@'')"
    by (simp_all add: endsWith_char_def n_def)
  have "CleanTypeName n = n" by (simp add: CleanTypeName_def Let_def t s e)
  then show ?thesis by (simp only: n_def)
qed

section \<open>Properties of the flattening walk\<close>

lemma finite_fmran' [simp]: "finite (fmran' m)"
  by (simp add: fmran'_alt_def)

lemma finite_objs [simp]: "finite (objs st ext)"
  by (simp add: objs_def)

lemma fmran'_fmupd_subset: "fmran' (fmupd k v m) \<subseteq> insert v (fmran' m)"
  by (auto simp: fmlookup_ran'_iff split: if_splits)

lemma push_new_set: "set (push_new ext r) = set ext \<union> set_option r"
  by (auto simp: push_new_def split: option.splits)

lemma push_new_distinct: "distinct ext \<Longrightarrow> distinct (push_new ext r)"
  by (auto simp: push_new_def split: option.splits)

lemma push_new_prefix: "\<exists>ys. push_new ext r = ext @ ys"
  by (auto simp: push_new_def split: option.splits)

lemma GetType_step:
  assumes fin: "finite K" and inv: "names_within K st ext"
      and key: "CleanTypeName n \<in> K" and get: "GetType st n = (st', Inr r)"
  shows "names_within K st' (push_new ext r) \<and> bound K st' (push_new ext r) \<le> bound K st ext"
  using GetType_result [OF get]
proof (elim disjE exE conjE)
  assume same: "st' = st"
    and found: "\<forall>a. Inr r = Inr (Some a) \<longrightarrow> fmlookup (database st) (CleanTypeName n) = Some a"
  have "set_option r \<subseteq> fmran' (database st)"
    using found by (cases r) (auto intro: fmran'I)
  then have "objs st (push_new ext r) = objs st ext"
    by (auto simp: objs_def push_new_set)
  with inv same show ?thesis
    by (simp add: names_within_def bound_def)
next
  fix b i base inst
  assume none: "fmlookup (database st) (CleanTypeName n) = None"
    and base: "fmlookup (database st) b = Some base"
    and inst: "DBType_createTemplateInstance (heap st base) (map trim (split_comma i)) = Inr (Some inst)"
    and st': "st' = alloc_instance st (CleanTypeName n) inst"
    and r: "Inr r = Inr (Some (nextaddr st))"
  let ?na = "nextaddr st"
  have r': "r = Some ?na" using r by simp
  have db': "database st' = fmupd (CleanTypeName n) ?na (database st)"
    and heap': "heap st' = (heap st) (?na := inst \<lparr> typename := CleanTypeName n \<rparr>)"
    by (simp_all add: st' alloc_instance_def)
  have sub: "objs st' (push_new ext r) \<subseteq> insert ?na (objs st ext)"
    using fmran'_fmupd_subset [of "CleanTypeName n" ?na "database st"]
    by (auto simp: objs_def push_new_set r' db')
  have base_in: "base \<in> objs st ext"
    using base by (auto simp: objs_def intro: fmran'I)
  have names_inst: "names_of (inst \<lparr> typename := CleanTypeName n \<rparr>) = names_of (heap st base)"
    using createTemplateInstance_copied(2,9) [OF inst] by (simp add: names_of_def)
  have inv': "names_within K st' (push_new ext r)"
    unfolding names_within_def
  proof
    fix a assume a: "a \<in> objs st' (push_new ext r)"
    show "CleanTypeName ` names_of (heap st' a) \<subseteq> K"
    proof (cases "a = ?na")
      case True
      then have "names_of (heap st' a) = names_of (heap st base)"
        by (simp add: heap' names_inst)
      with inv base_in show ?thesis by (simp add: names_within_def)
    next
      case False
      with a sub have "a \<in> objs st ext" by blast
      moreover from False have "heap st' a = heap st a" by (simp add: heap')
      ultimately show ?thesis using inv by (simp add: names_within_def)
    qed
  qed
  have "card (objs st' (push_new ext r)) \<le> card (insert ?na (objs st ext))"
    by (rule card_mono [OF _ sub]) simp
  also have "\<dots> \<le> Suc (card (objs st ext))"
    by (simp add: card_insert_if)
  finally have c1: "card (objs st' (push_new ext r)) \<le> Suc (card (objs st ext))" .
  have kin: "CleanTypeName n \<in> K - fmdom' (database st)"
    using key none by (simp add: fmdom'_notI)
  have "K - fmdom' (database st') = (K - fmdom' (database st)) - {CleanTypeName n}"
    by (auto simp: db')
  then have "card (K - fmdom' (database st')) = card (K - fmdom' (database st)) - 1"
    using kin fin by (simp add: card_Diff_singleton)
  moreover have "0 < card (K - fmdom' (database st))"
    using kin fin by (metis card_gt_0_iff empty_iff finite_Diff)
  ultimately have "bound K st' (push_new ext r) \<le> bound K st ext"
    using c1 by (simp add: bound_def)
  with inv' show ?thesis by simp
qed

lemma combine_siblings_inv:
  assumes "finite K" "names_within K st ext" "\<forall>n \<in> set l. CleanTypeName n \<in> K"
      and "combine_siblings st ext l = (st', Inr ext')"
  shows "names_within K st' ext' \<and> bound K st' ext' \<le> bound K st ext \<and>
         (distinct ext \<longrightarrow> distinct ext') \<and> (\<exists>ys. ext' = ext @ ys)"
  using assms
proof (induction l arbitrary: st ext)
  case Nil
  then show ?case by simp
next
  case (Cons n l)
  obtain st1 r1 where g: "GetType st n = (st1, r1)" by (cases "GetType st n")
  with Cons.prems(4) obtain r where r1: "r1 = Inr r"
    by (cases r1) auto
  from Cons.prems(4) g r1 have rest: "combine_siblings st1 (push_new ext r) l = (st', Inr ext')"
    by simp
  from GetType_step [OF Cons.prems(1,2) _ g [unfolded r1]] Cons.prems(3)
  have s: "names_within K st1 (push_new ext r)" "bound K st1 (push_new ext r) \<le> bound K st ext"
    by simp_all
  from Cons.IH [OF Cons.prems(1) s(1) _ rest] Cons.prems(3)
  have ih: "names_within K st' ext'" "bound K st' ext' \<le> bound K st1 (push_new ext r)"
    "distinct (push_new ext r) \<longrightarrow> distinct ext'" "\<exists>ys. ext' = push_new ext r @ ys"
    by simp_all
  from ih(4) push_new_prefix [of ext r] have "\<exists>ys. ext' = ext @ ys"
    by (metis append.assoc)
  with ih s show ?case
    by (auto dest: push_new_distinct)
qed

lemma combine_super_inv:
  assumes "finite K" "names_within K st ext" "c \<in> set ext"
      and "combine_super st ext c = (st', Inr ext')"
  shows "names_within K st' ext' \<and> bound K st' ext' \<le> bound K st ext \<and>
         (distinct ext \<longrightarrow> distinct ext') \<and> (\<exists>ys. ext' = ext @ ys)"
proof (cases "supertype (heap st c)")
  case None
  with assms show ?thesis by (simp add: combine_super_def)
next
  case (Some s)
  show ?thesis
  proof (cases "s = []")
    case True
    with Some assms show ?thesis by (simp add: combine_super_def)
  next
    case False
    obtain st1 r1 where g: "GetType st s = (st1, r1)" by (cases "GetType st s")
    with assms(4) Some False obtain r where r1: "r1 = Inr r" and e: "st' = st1" "ext' = push_new ext r"
      by (cases r1) (auto simp: combine_super_def)
    have "s \<in> names_of (heap st c)" using Some by (simp add: names_of_def)
    moreover have "c \<in> objs st ext" using assms(3) by (simp add: objs_def)
    ultimately have "CleanTypeName s \<in> K"
      using assms(2) by (auto simp: names_within_def)
    from GetType_step [OF assms(1,2) this g [unfolded r1]] e push_new_prefix [of ext r]
    show ?thesis by (auto dest: push_new_distinct)
  qed
qed

lemma combine_round_inv:
  assumes "finite K" "names_within K st ext" "c \<in> set ext"
      and "combine_round st ext c = (st', Inr ext')"
  shows "names_within K st' ext' \<and> bound K st' ext' \<le> bound K st ext \<and>
         (distinct ext \<longrightarrow> distinct ext') \<and> (\<exists>ys. ext' = ext @ ys)"
proof -
  obtain st1 r1 where s: "combine_super st ext c = (st1, r1)" by (cases "combine_super st ext c")
  with assms(4) obtain ext1 where r1: "r1 = Inr ext1"
    by (cases r1) (auto simp: combine_round_def)
  from combine_super_inv [OF assms(1,2,3) s [unfolded r1]]
  have a: "names_within K st1 ext1" "bound K st1 ext1 \<le> bound K st ext"
    "distinct ext \<longrightarrow> distinct ext1" "\<exists>ys. ext1 = ext @ ys"
    by simp_all
  show ?thesis
  proof (cases "siblingTypes (heap st1 c)")
    case None
    with assms(4) s r1 have "st' = st1" "ext' = ext1" by (simp_all add: combine_round_def)
    with a show ?thesis by simp
  next
    case (Some l)
    with assms(4) s r1 have sib: "combine_siblings st1 ext1 l = (st', Inr ext')"
      by (simp add: combine_round_def)
    have "c \<in> objs st1 ext1" using a(4) assms(3) by (auto simp: objs_def)
    moreover have "set l \<subseteq> names_of (heap st1 c)" using Some by (simp add: names_of_def)
    ultimately have "\<forall>n \<in> set l. CleanTypeName n \<in> K"
      using a(1) by (auto simp: names_within_def)
    from combine_siblings_inv [OF assms(1) a(1) this sib] a
    show ?thesis by (metis append.assoc order_trans)
  qed
qed

lemma length_le_bound:
  assumes "distinct ext"
  shows "length ext \<le> bound K st ext"
proof -
  have "length ext = card (set ext)" using assms by (simp add: distinct_card)
  also have "\<dots> \<le> card (objs st ext)"
    by (rule card_mono) (simp_all add: objs_def)
  finally show ?thesis by (simp add: bound_def)
qed

lemma combine_loop_terminates:
  assumes "finite K" "names_within K st ext" "distinct ext"
  shows "\<exists>st' r. combine_loop st ext i = Some (st', r) \<and>
           (\<forall>ext'. r = Inr ext' \<longrightarrow> distinct ext' \<and> (\<exists>ys. ext' = ext @ ys))"
  using assms
proof (induction "bound K st ext - i" arbitrary: st ext i rule: less_induct)
  case less
  show ?case
  proof (cases "i < length ext")
    case False
    with less.prems(3) show ?thesis by (subst combine_loop.simps) simp
  next
    case True
    obtain st1 r1 where rd: "combine_round st ext (ext ! i) = (st1, r1)"
      by (cases "combine_round st ext (ext ! i)")
    show ?thesis
    proof (cases r1)
      case (Inl e)
      with True rd show ?thesis by (subst combine_loop.simps) simp
    next
      case (Inr ext1)
      from True have "ext ! i \<in> set ext" by simp
      from combine_round_inv [OF less.prems(1,2) this rd [unfolded Inr]] less.prems(3)
      have a: "names_within K st1 ext1" "bound K st1 ext1 \<le> bound K st ext" "distinct ext1"
        and p: "\<exists>ys. ext1 = ext @ ys"
        by simp_all
      have "i < bound K st ext"
        using True length_le_bound [OF less.prems(3), of K st] by simp
      with a(2) have "bound K st1 ext1 - (i + 1) < bound K st ext - i" by simp
      from less.hyps [OF this less.prems(1) a(1) a(3)]
      obtain st' r where l: "combine_loop st1 ext1 (i + 1) = Some (st', r)"
        and q: "\<forall>ext'. r = Inr ext' \<longrightarrow> distinct ext' \<and> (\<exists>ys. ext' = ext1 @ ys)"
        by blast
      from p q have "\<forall>ext'. r = Inr ext' \<longrightarrow> distinct ext' \<and> (\<exists>ys. ext' = ext @ ys)"
        by (metis append.assoc)
      moreover from True rd Inr l have "combine_loop st ext i = Some (st', r)"
        by (subst combine_loop.simps) simp
      ultimately show ?thesis by blast
    qed
  qed
qed

text \<open>Hence the walk from any type, and a method lookup through it, return.\<close>

lemma getCombineTypesList_returns: "\<exists>st' r. getCombineTypesList st this = Some (st', r)"
proof -
  define K where "K = (\<Union>a \<in> objs st [this]. CleanTypeName ` names_of (heap st a))"
  have "finite (names_of t)" for t
    by (simp add: names_of_def split: option.splits)
  then have "finite K" by (simp add: K_def)
  moreover have "names_within K st [this]" by (auto simp: names_within_def K_def)
  ultimately have "\<exists>st' r. combine_loop st [this] 0 = Some (st', r) \<and>
      (\<forall>ext'. r = Inr ext' \<longrightarrow> distinct ext' \<and> (\<exists>ys. ext' = [this] @ ys))"
    by (intro combine_loop_terminates [of K]) simp_all
  then show ?thesis by (auto simp: getCombineTypesList_def)
qed

lemma getMethod_returns: "\<exists>st' r. getMethod st this name recurse = Some (st', r)"
proof -
  obtain st1 r1 where w: "getCombineTypesList st this = Some (st1, r1)"
    using getCombineTypesList_returns by blast
  show ?thesis
    by (cases r1) (auto simp: getMethod_def w split: option.splits)
qed

text \<open>The walk only adds objects to the store and only appends to the list.\<close>

lemma frame_refl: "frame st st"
  by (simp add: frame_def)

lemma frame_trans: "frame st st1 \<Longrightarrow> frame st1 st2 \<Longrightarrow> frame st st2"
  by (auto simp: frame_def)

lemma GetType_frame:
  assumes "GetType st n = (st', r)"
  shows "frame st st' \<and> (wf_state st \<longrightarrow> (\<forall>a. r = Inr (Some a) \<longrightarrow> a < nextaddr st'))"
  using GetType_result [OF assms]
proof (elim disjE exE conjE)
  assume "st' = st" "\<forall>a. r = Inr (Some a) \<longrightarrow> fmlookup (database st) (CleanTypeName n) = Some a"
  then show ?thesis
    by (auto simp: frame_def wf_state_def intro: fmran'I)
next
  fix b i base inst
  assume "st' = alloc_instance st (CleanTypeName n) inst" "r = Inr (Some (nextaddr st))"
  then show ?thesis
    by (auto simp: frame_def wf_state_def alloc_instance_def fmlookup_ran'_iff split: if_splits
        intro: less_SucI)
qed

lemma combine_siblings_frame:
  "combine_siblings st ext l = (st', r) \<Longrightarrow> frame st st'"
proof (induction l arbitrary: st ext)
  case Nil
  then show ?case by (simp add: frame_refl)
next
  case (Cons n l)
  obtain st1 r1 where g: "GetType st n = (st1, r1)" by (cases "GetType st n")
  from GetType_frame [OF g] have f: "frame st st1" by simp
  show ?case
  proof (cases r1)
    case (Inl e)
    with Cons.prems g f show ?thesis by simp
  next
    case (Inr x)
    with Cons.prems g have "combine_siblings st1 (push_new ext x) l = (st', r)" by simp
    from Cons.IH [OF this] f show ?thesis by (rule frame_trans [rotated])
  qed
qed

lemma combine_siblings_prefix:
  "combine_siblings st ext l = (st', Inr ext') \<Longrightarrow> \<exists>ys. ext' = ext @ ys"
proof (induction l arbitrary: st ext)
  case Nil
  then show ?case by simp
next
  case (Cons n l)
  obtain st1 r1 where g: "GetType st n = (st1, r1)" by (cases "GetType st n")
  with Cons.prems obtain x where "r1 = Inr x"
    and "combine_siblings st1 (push_new ext x) l = (st', Inr ext')"
    by (cases r1) auto
  from Cons.IH [OF this(2)] push_new_prefix [of ext x] show ?case
    by (metis append.assoc)
qed

lemma combine_super_frame:
  "combine_super st ext c = (st', r) \<Longrightarrow> frame st st'"
  by (auto simp: combine_super_def frame_refl split: option.splits if_splits prod.splits sum.splits
      dest: GetType_frame)

lemma combine_super_prefix:
  "combine_super st ext c = (st', Inr ext') \<Longrightarrow> \<exists>ys. ext' = ext @ ys"
  using push_new_prefix
  by (auto simp: combine_super_def split: option.splits if_splits prod.splits sum.splits)

lemma combine_round_frame:
  "combine_round st ext c = (st', r) \<Longrightarrow> frame st st'"
  by (auto simp: combine_round_def split: option.splits prod.splits sum.splits
      dest: combine_super_frame combine_siblings_frame intro: frame_trans)

lemma combine_round_prefix:
  assumes "combine_round st ext c = (st', Inr ext')"
  shows "\<exists>ys. ext' = ext @ ys"
proof -
  obtain st1 r1 where s: "combine_super st ext c = (st1, r1)" by (cases "combine_super st ext c")
  with assms obtain ext1 where r1: "r1 = Inr ext1"
    by (cases r1) (auto simp: combine_round_def)
  from combine_super_prefix [OF s [unfolded r1]] obtain ys where ys: "ext1 = ext @ ys" by blast
  show ?thesis
  proof (cases "siblingTypes (heap st1 c)")
    case None
    with assms s r1 have "ext' = ext1" by (simp add: combine_round_def)
    with ys show ?thesis by blast
  next
    case (Some l)
    with assms s r1 have "combine_siblings st1 ext1 l = (st', Inr ext')"
      by (simp add: combine_round_def)
    from combine_siblings_prefix [OF this] ys show ?thesis by auto
  qed
qed

lemma combine_loop_frame_prefix:
  assumes "combine_loop st ext i = Some res"
  shows "frame st (fst res) \<and> (\<forall>ext'. snd res = Inr ext' \<longrightarrow> (\<exists>ys. ext' = ext @ ys))"
proof (rule combine_loop.raw_induct
    [where P = "\<lambda>st ext i res. frame st (fst res) \<and>
                  (\<forall>ext'. snd res = Inr ext' \<longrightarrow> (\<exists>ys. ext' = ext @ ys))", OF _ assms])
  fix loop :: "state \<Rightarrow> addr list \<Rightarrow> nat \<Rightarrow> (state \<times> (error + addr list)) option"
  fix st ext i res
  assume IH: "\<And>st ext i res. loop st ext i = Some res \<Longrightarrow>
      frame st (fst res) \<and> (\<forall>ext'. snd res = Inr ext' \<longrightarrow> (\<exists>ys. ext' = ext @ ys))"
  assume eq: "(if i < length ext
      then case combine_round st ext (ext ! i) of
           (st1, Inl e) \<Rightarrow> Some (st1, Inl e)
           | (st1, Inr ext1) \<Rightarrow> loop st1 ext1 (i + 1)
      else Some (st, Inr ext)) = Some res"
  show "frame st (fst res) \<and> (\<forall>ext'. snd res = Inr ext' \<longrightarrow> (\<exists>ys. ext' = ext @ ys))"
  proof (cases "i < length ext")
    case False
    with eq have "res = (st, Inr ext)" by simp
    then show ?thesis by (simp add: frame_refl)
  next
    case True
    obtain st1 r1 where rd: "combine_round st ext (ext ! i) = (st1, r1)"
      by (cases "combine_round st ext (ext ! i)")
    from combine_round_frame [OF rd] have f: "frame st st1" .
    show ?thesis
    proof (cases r1)
      case (Inl e)
      with eq True rd have "res = (st1, Inl e)" by simp
      with f show ?thesis by simp
    next
      case (Inr ext1)
      with eq True rd have l: "loop st1 ext1 (i + 1) = Some res" by simp
      from combine_round_prefix [OF rd [unfolded Inr]] obtain ys where ys: "ext1 = ext @ ys" by blast
      from IH [OF l] have f1: "frame st1 (fst res)"
        and p1: "\<forall>ext'. snd res = Inr ext' \<longrightarrow> (\<exists>zs. ext' = ext1 @ zs)"
        by blast+
      from f f1 have "frame st (fst res)" by (rule frame_trans)
      moreover from p1 ys have "\<forall>ext'. snd res = Inr ext' \<longrightarrow> (\<exists>zs. ext' = ext @ zs)"
        by (metis append.assoc)
      ultimately show ?thesis by blast
    qed
  qed
qed

text \<open>The supertype step of the first round, for a supertype that does not win.\<close>

lemma getMethod_extend_append:
  assumes "\<forall>a \<in> set xs. getMethod_own (heap st a) name = None"
  shows "getMethod_extend st (xs @ ys) name = getMethod_extend st ys name"
  using assms by (induction xs) simp_all

lemma supertype_without_step:
  assumes wf: "wf_state st" and c: "c < nextaddr st"
      and own: "getMethod_own (heap st c) name = None"
      and sup: "supertype_without st c name st0"
  shows "\<exists>ext0. combine_super st [c] c = (st0, Inr (c # ext0)) \<and> frame st st0 \<and>
           (\<forall>a \<in> set (c # ext0). a < nextaddr st0 \<and> getMethod_own (heap st0 a) name = None)"
proof (cases "truthy_str (supertype (heap st c))")
  case False
  with sup have "st0 = st"
    by (auto simp: supertype_without_def truthy_str_def split: option.splits if_splits)
  moreover from False have "combine_super st [c] c = (st, Inr [c])"
    by (auto simp: combine_super_def truthy_str_def split: option.splits)
  ultimately show ?thesis using c own by (simp add: frame_refl)
next
  case True
  then obtain s where s: "supertype (heap st c) = Some s" "s \<noteq> []"
    by (auto simp: truthy_str_def split: option.splits)
  obtain st1 r where g: "GetType st s = (st1, r)" by (cases "GetType st s")
  from GetType_frame [OF g] wf have f: "frame st st1"
    and below: "\<forall>a. r = Inr (Some a) \<longrightarrow> a < nextaddr st1"
    by simp_all
  from f c have c1: "c < nextaddr st1" "heap st1 c = heap st c"
    by (auto simp: frame_def)
  from sup s g obtain rs where r: "r = Inr rs" and st0: "st0 = st1"
    and sa: "\<forall>a. rs = Some a \<longrightarrow> getMethod_own (heap st1 a) name = None"
    by (cases r; cases "projr r") (auto simp: supertype_without_def)
  have cs: "combine_super st [c] c = (st1, Inr (push_new [c] rs))"
    using s g r by (simp add: combine_super_def)
  show ?thesis
  proof (cases rs)
    case None
    with cs st0 f c1 own show ?thesis by (simp add: push_new_def)
  next
    case (Some a)
    with below r have "a < nextaddr st1" by simp
    moreover from sa Some have "getMethod_own (heap st1 a) name = None" by simp
    ultimately show ?thesis
      using cs st0 f c1 own Some by (simp add: push_new_def)
  qed
qed

section \<open>Properties of ingestion and removal\<close>

lemma RemoveTypesInModule_lookup:
  "fmlookup (database (RemoveTypesInModule st m)) k =
     (case fmlookup (database st) k of
        None \<Rightarrow> None
      | Some a \<Rightarrow> if declaredModule (heap st a) = Some m then None else Some a)"
  by (simp add: RemoveTypesInModule_def split: option.splits)

lemma AddTypesFromUnreal_entries:
  assumes "\<forall>k \<in> S. engine_entry st k"
  shows "\<forall>k \<in> S \<union> fst ` set input. engine_entry (AddTypesFromUnreal st input) k"
  using assms
proof (induction input arbitrary: st S)
  case Nil
  then show ?case by simp
next
  case (Cons kv input)
  obtain key v where kv: "kv = (key, v)" by (cases kv)
  let ?st1 = "st \<lparr> heap := (heap st) (nextaddr st := DBType_fromJSON key v),
                    nextaddr := Suc (nextaddr st),
                    database := fmupd key (nextaddr st) (database st) \<rparr>"
  have "\<forall>k \<in> insert key S. engine_entry ?st1 k"
  proof
    fix k assume "k \<in> insert key S"
    show "engine_entry ?st1 k"
    proof (cases "k = key")
      case True
      then show ?thesis by (simp add: engine_entry_def DBType_fromJSON_def)
    next
      case False
      with \<open>k \<in> insert key S\<close> Cons.prems have "engine_entry st k" by simp
      with False show ?thesis
        by (auto simp: engine_entry_def split: option.splits)
    qed
  qed
  from Cons.IH [OF this] show ?case
    by (simp add: kv Let_def)
qed

section \<open>Evaluation of the examples\<close>

lemmas ex_defs = ex_registry_def ex_Array_def ex_Array_int_def ex_unused_def ex_method_def

lemmas string_defs = CleanTypeName_def trim_def is_space_def startsWith_def endsWith_char_def
  match_here_def is_word_char_def is_arg_char_def Let_def

lemmas eval_defs = string_defs DBType_createTemplateInstance_def
  DBProperty_createTemplateInstance_def DBMethod_createTemplateInstance_def
  DBArg_createTemplateInstance_def ReplaceTemplateType_def

lemma ex_createTemplateInstance:
  "DBType_createTemplateInstance ex_Array [''int''] = Inr (Some ex_Array_int)"
  by (simp add: ex_defs eval_defs)

lemma ex_GetType_Array_int:
  "GetType ex_registry ''Array<int>''
     = (alloc_instance ex_registry ''Array<int>'' ex_Array_int, Inr (Some 1))"
proof -
  have 1: "fmlookup (database ex_registry) (CleanTypeName ''Array<int>'') = None"
    by (simp add: ex_registry_def string_defs)
  have 2: "match_template (CleanTypeName ''Array<int>'') = Some (''Array'', ''int'')"
    by (simp add: string_defs)
  have 3: "CleanTypeName ''Array<int>'' = ''Array<int>''"
    by (simp add: string_defs)
  have 4: "map trim (split_comma ''int'') = [''int'']"
    by (simp add: string_defs)
  have 5: "fmlookup (database ex_registry) ''Array'' = Some 0" "heap ex_registry 0 = ex_Array"
    "nextaddr ex_registry = 1"
    by (simp_all add: ex_registry_def)
  show ?thesis
    unfolding GetType_template [OF 1 2] 3 4
    by (simp add: 5 ex_createTemplateInstance alloc_instance_def)
qed

lemma ex_GetType_nested:
  "GetType ex_registry ''Array<Array<int>>''
     = (alloc_instance ex_registry ''Array<Array<int>>'' ex_Array_int, Inr (Some 1))"
proof -
  have 1: "fmlookup (database ex_registry) (CleanTypeName ''Array<Array<int>>'') = None"
    by (simp add: ex_registry_def string_defs)
  have 2: "match_template (CleanTypeName ''Array<Array<int>>'') = Some (''Array'', ''int'')"
    by (simp add: string_defs)
  have 3: "CleanTypeName ''Array<Array<int>>'' = ''Array<Array<int>>''"
    by (simp add: string_defs)
  have 4: "map trim (split_comma ''int'') = [''int'']"
    by (simp add: string_defs)
  have 5: "fmlookup (database ex_registry) ''Array'' = Some 0" "heap ex_registry 0 = ex_Array"
    "nextaddr ex_registry = 1"
    by (simp_all add: ex_registry_def)
  show ?thesis
    unfolding GetType_template [OF 1 2] 3 4
    by (simp add: 5 ex_createTemplateInstance alloc_instance_def)
qed

lemmas walk_defs = getCombineTypesList_def combine_loop.simps combine_round_def
  combine_super_def push_new_def GetType_found

lemma ex_cycle_walk: "getCombineTypesList ex_cycle 0 = Some (ex_cycle, Inr [0, 1])"
  by (simp add: walk_defs ex_cycle_def ex_unused_def string_defs)

lemma ex_siblings_walk: "getCombineTypesList ex_siblings 0 = Some (ex_siblings, Inr [0, 1, 2])"
  by (simp add: walk_defs ex_siblings_def ex_unused_def string_defs)

lemma ex_siblings_super_walk:
  "getCombineTypesList ex_siblings_super 0 = Some (ex_siblings_super, Inr [0, 3, 1, 2])"
  by (simp add: walk_defs ex_siblings_super_def ex_unused_def string_defs)

lemma ex_siblings_base_walk:
  "getCombineTypesList ex_siblings_base 0 = Some (ex_siblings_base, Inr [0, 3, 1, 2])"
  by (simp add: walk_defs ex_siblings_base_def ex_unused_def string_defs)

section \<open>Claims\<close>

subsection \<open>C1: placeholder count mismatch\<close>

text \<open>
  C1.  A lookup of a name of generic form, not yet in the registry, whose base type has
  a placeholder count different from the number of supplied type names is claimed to
  return none without raising, leaving the registry unchanged.  In the source the
  assignment \<open>inst.typename = typename\<close> comes before the test \<open>if (!inst) return null\<close>,
  so what the lookup does is raise a \<open>TypeError\<close>; the registry is indeed unchanged.
\<close>

theorem GetType_count_mismatch_raises:
  assumes "fmlookup (database st) (CleanTypeName n) = None"
      and "match_template (CleanTypeName n) = Some (b, i)"
      and "fmlookup (database st) b = Some a"
      and "subTypes (heap st a) = Some ps"
      and "length (map trim (split_comma i)) \<noteq> length ps"
  shows "GetType st n = (st, Inl TypeError)"
  using assms(3-5)
  by (simp add: GetType_template [OF assms(1,2)] DBType_createTemplateInstance_def)

text \<open>C1 at \<open>Array<int,float>\<close>, for \<open>Array\<close> with the one placeholder \<open>T\<close>.\<close>

theorem GetType_count_mismatch_raises_witness:
  "GetType ex_registry ''Array<int,float>'' = (ex_registry, Inl TypeError)"
proof -
  have 1: "fmlookup (database ex_registry) (CleanTypeName ''Array<int,float>'') = None"
    by (simp add: ex_defs string_defs)
  have 2: "match_template (CleanTypeName ''Array<int,float>'') = Some (''Array'', ''int,float'')"
    by (simp add: string_defs)
  have 3: "fmlookup (database ex_registry) ''Array'' = Some 0"
    by (simp add: ex_defs)
  have 4: "subTypes (heap ex_registry 0) = Some [''T'']"
    by (simp add: ex_defs)
  have 5: "length (map trim (split_comma ''int,float'')) \<noteq> length [''T'']"
    by simp
  show ?thesis
    by (rule GetType_count_mismatch_raises [OF 1 2 3 4 5])
qed

subsection \<open>C2: the instance is cached\<close>



subsection \<open>C3: substitution of the placeholder\<close>

text \<open>
  C3, as amended.  For a generic base type registered under an identifier \<open>B\<close> with the
  placeholder list \<open>[T]\<close>, and an identifier \<open>c\<close> as concrete type, the first lookup of
  \<open>B<c>\<close> creates an instance with the properties of the base, in order and under the
  same names; a property whose type name equals \<open>T\<close> once its decoration is cleaned has
  the type name \<open>c\<close>, and every other property has its type name with the decoration
  cleaned off (unchanged when there is none).
\<close>

theorem generic_instance_property_types:
  assumes "wordname B" "wordname c"
      and "fmlookup (database st) B = Some b" "subTypes (heap st b) = Some [T]"
      and "fmlookup (database st) (B @ ''<'' @ c @ ''>'') = None"
  shows "\<exists>st'. GetType st (B @ ''<'' @ c @ ''>'') = (st', Inr (Some (nextaddr st))) \<and>
           fmlookup (database st') (B @ ''<'' @ c @ ''>'') = Some (nextaddr st) \<and>
           map p_name (properties (heap st' (nextaddr st))) = map p_name (properties (heap st b)) \<and>
           map p_typename (properties (heap st' (nextaddr st))) =
             map (\<lambda>p. if CleanTypeName (p_typename p) = T then c
                       else CleanTypeName (p_typename p)) (properties (heap st b))"
proof -
  let ?n = "B @ ''<'' @ c @ ''>''"
  have cl: "CleanTypeName ?n = ?n" using assms(1,2) by (rule CleanTypeName_generic)
  have m: "match_template (CleanTypeName ?n) = Some (B, c)"
    unfolding cl using assms(1,2) by (rule match_generic)
  have n: "fmlookup (database st) (CleanTypeName ?n) = None"
    unfolding cl by (rule assms(5))
  have acts: "map trim (split_comma c) = [c]"
    using assms(2) by (simp add: split_comma_wordname wordname_no_comma trim_wordname)
  show ?thesis
    unfolding GetType_template [OF n m] cl
    by (simp add: assms(3) acts DBType_createTemplateInstance_eq [OF assms(4), of "[c]"]
        inst_property_def subst_name_def comp_def)
qed

text \<open>C3 at \<open>Array<int>\<close>: \<open>value : T\<close> becomes \<open>value : int\<close>, \<open>owner : const Foo&\<close>
  becomes \<open>owner : Foo\<close>.\<close>

theorem generic_instance_property_types_witness:
  "wordname ''Array'' \<and> wordname ''int'' \<and>
   GetType ex_registry ''Array<int>'' = (fst (GetType ex_registry ''Array<int>''), Inr (Some 1)) \<and>
   map p_name (properties (heap (fst (GetType ex_registry ''Array<int>'')) 1)) = [''value'', ''owner''] \<and>
   map p_typename (properties (heap (fst (GetType ex_registry ''Array<int>'')) 1)) = [''int'', ''Foo'']"
proof -
  have 1: "wordname ''Array''" "wordname ''int''"
    by (simp_all add: wordname_def is_word_char_def)
  have 2: "fmlookup (database ex_registry) ''Array'' = Some 0"
    "subTypes (heap ex_registry 0) = Some [''T'']"
    "fmlookup (database ex_registry) (''Array'' @ ''<'' @ ''int'' @ ''>'') = None"
    by (simp_all add: ex_defs)
  have 3: "nextaddr ex_registry = 1" by (simp add: ex_defs)
  have 4: "map p_name (properties (heap ex_registry 0)) = [''value'', ''owner'']"
    "map (\<lambda>p. if CleanTypeName (p_typename p) = ''T'' then ''int''
              else CleanTypeName (p_typename p)) (properties (heap ex_registry 0)) = [''int'', ''Foo'']"
    by (simp_all add: ex_defs string_defs)
  from generic_instance_property_types [OF 1 2] 1
  show ?thesis unfolding 3 4 by auto
qed

text \<open>
  C3 as stated is about every concrete type.  The lookup of \<open>Array<Array<int>>\<close>
  applies \<open>Array\<close> to the concrete type \<open>Array<int>\<close>, but the pattern matches at the
  inner \<open>Array<int>\<close>, so the instance stored under \<open>Array<Array<int>>\<close> has
  \<open>value : int\<close>, not \<open>value : Array<int>\<close>.  Moreover the property
  \<open>owner : const Foo&\<close>, which matches no placeholder, does not keep its type name as
  it is: the name becomes \<open>Foo\<close>.
\<close>

theorem generic_instance_property_types_counterexample:
  "map p_typename (properties (heap ex_registry 0)) = [''T'', ''const Foo&''] \<and>
   snd (GetType ex_registry ''Array<Array<int>>'') = Inr (Some 1) \<and>
   fmlookup (database (fst (GetType ex_registry ''Array<Array<int>>''))) ''Array<Array<int>>'' = Some 1 \<and>
   map p_typename (properties (heap (fst (GetType ex_registry ''Array<Array<int>>'')) 1))
     = [''int'', ''Foo'']"
  by (simp add: ex_GetType_nested alloc_instance_def) (simp add: ex_defs)

subsection \<open>C4: what an instance copies\<close>

text \<open>
  C4, as amended.  An instantiation with matching placeholder count returns a type that
  has the base's \<open>typename\<close>, \<open>supertype\<close>, \<open>isNS\<close>, \<open>isEnum\<close>, \<open>rawName\<close>,
  \<open>namespaceResolved\<close>, \<open>shadowedNamespace\<close>, \<open>declaredModule\<close> and \<open>siblingTypes\<close>; its
  properties have the base's names; its methods have the base's names, argument
  strings and documentation, and their arguments the base's names and default values;
  and every type name (of a property, a return value, an argument) is the base's with
  the decoration cleaned off, or the actual type of the first placeholder that it then
  equals.
\<close>

theorem createTemplateInstance_copies:
  assumes "subTypes this = Some tts" "length acts = length tts"
  shows "\<exists>inst. DBType_createTemplateInstance this acts = Inr (Some inst) \<and>
     typename inst = typename this \<and> supertype inst = supertype this \<and>
     isNS inst = isNS this \<and> isEnum inst = isEnum this \<and> rawName inst = rawName this \<and>
     namespaceResolved inst = namespaceResolved this \<and>
     shadowedNamespace inst = shadowedNamespace this \<and>
     declaredModule inst = declaredModule this \<and> siblingTypes inst = siblingTypes this \<and>
     map p_name (properties inst) = map p_name (properties this) \<and>
     map p_typename (properties inst) = map (subst_name tts acts \<circ> p_typename) (properties this) \<and>
     map m_name (methods inst) = map m_name (methods this) \<and>
     map m_argumentStr (methods inst) = map m_argumentStr (methods this) \<and>
     map m_documentation (methods inst) = map m_documentation (methods this) \<and>
     map m_returnType (methods inst) = map (subst_name tts acts \<circ> m_returnType) (methods this) \<and>
     map (map a_name \<circ> m_args) (methods inst) = map (map a_name \<circ> m_args) (methods this) \<and>
     map (map a_defaultvalue \<circ> m_args) (methods inst)
       = map (map a_defaultvalue \<circ> m_args) (methods this) \<and>
     map (map a_typename \<circ> m_args) (methods inst)
       = map (map (subst_name tts acts \<circ> a_typename) \<circ> m_args) (methods this)"
  by (simp add: DBType_createTemplateInstance_eq [OF assms] inst_property_def inst_method_def
      inst_arg_def comp_def)

text \<open>C4 at \<open>Array\<close> and \<open>[int]\<close>: the instance is \<open>ex_Array_int\<close>, with the module of
  \<open>Array\<close> and the argument of \<open>Add\<close> of type \<open>int\<close>.\<close>

theorem createTemplateInstance_copies_witness:
  "subTypes ex_Array = Some [''T''] \<and> length [''int''] = length [''T''] \<and>
   DBType_createTemplateInstance ex_Array [''int''] = Inr (Some ex_Array_int) \<and>
   declaredModule ex_Array_int = declaredModule ex_Array \<and>
   map (map a_typename \<circ> m_args) (methods ex_Array_int) = [[''int'']]"
proof -
  have 1: "subTypes ex_Array = Some [''T'']" by (simp add: ex_defs)
  have 2: "length [''int''] = length [''T'']" by simp
  have 3: "map (map (subst_name [''T''] [''int''] \<circ> a_typename) \<circ> m_args) (methods ex_Array)
             = [[''int'']]"
    by (simp add: ex_defs subst_name_def string_defs)
  from createTemplateInstance_copies [OF 1 2] 1
  show ?thesis unfolding 3 ex_createTemplateInstance by auto
qed

text \<open>
  C4 as stated fails: the instance of the struct \<open>Array\<close> has no \<open>isStruct\<close> flag and
  no documentation, its properties have lost their documentation and their protection
  flags, its method \<open>Add\<close> is no longer protected, and the type name \<open>const Foo&\<close>,
  which matches no placeholder, has changed to \<open>Foo\<close>.
\<close>

theorem createTemplateInstance_copies_counterexample:
  "DBType_createTemplateInstance ex_Array [''int''] = Inr (Some ex_Array_int) \<and>
   isStruct ex_Array = Some True \<and> isStruct ex_Array_int = None \<and>
   documentation ex_Array = Some ''A dynamic array'' \<and> documentation ex_Array_int = None \<and>
   map p_documentation (properties ex_Array) = [Some ''the element'', None] \<and>
   map p_documentation (properties ex_Array_int) = [None, None] \<and>
   map p_isProtected (properties ex_Array) = [Some False, Some False] \<and>
   map p_isProtected (properties ex_Array_int) = [None, None] \<and>
   map m_isProtected (methods ex_Array) = [True] \<and>
   map m_isProtected (methods ex_Array_int) = [False] \<and>
   map p_typename (properties ex_Array) = [''T'', ''const Foo&''] \<and>
   map p_typename (properties ex_Array_int) = [''int'', ''Foo'']"
  by (simp add: ex_createTemplateInstance) (simp add: ex_defs)

subsection \<open>C5: the flattening walk ends\<close>

text \<open>
  C5, as amended.  For every registry state and every type, cyclic references or not,
  \<open>getCombineTypesList\<close> ends: it returns a result, which is an exception raised by a
  lookup or the list; the list begins with the type itself and holds no object twice.
  The test \<open>!extend.includes(...)\<close> before each \<open>push\<close> is the guard against cycles.
\<close>

theorem getCombineTypesList_terminates:
  "\<exists>st' r. getCombineTypesList st this = Some (st', r) \<and>
     (\<forall>ext. r = Inr ext \<longrightarrow> distinct ext \<and> (\<exists>ys. ext = this # ys))"
proof -
  define K where "K = (\<Union>a \<in> objs st [this]. CleanTypeName ` names_of (heap st a))"
  have "finite (names_of t)" for t
    by (simp add: names_of_def split: option.splits)
  then have "finite K" by (simp add: K_def)
  moreover have "names_within K st [this]" by (auto simp: names_within_def K_def)
  ultimately have "\<exists>st' r. combine_loop st [this] 0 = Some (st', r) \<and>
      (\<forall>ext'. r = Inr ext' \<longrightarrow> distinct ext' \<and> (\<exists>ys. ext' = [this] @ ys))"
    by (intro combine_loop_terminates [of K]) simp_all
  then show ?thesis by (simp add: getCombineTypesList_def)
qed

text \<open>C5 on the cyclic registry \<open>ex_cycle\<close>.\<close>

theorem getCombineTypesList_terminates_witness:
  "\<exists>st' r. getCombineTypesList ex_cycle 0 = Some (st', r) \<and>
     (\<forall>ext. r = Inr ext \<longrightarrow> distinct ext \<and> (\<exists>ys. ext = 0 # ys))"
  by (rule getCombineTypesList_terminates)

text \<open>
  C5 as stated says that a cycle makes the list grow without bound.  With \<open>A\<close> and \<open>B\<close>
  each the supertype of the other (and \<open>B\<close> listing both as siblings), the walk from
  \<open>A\<close> returns the two types, once each.
\<close>

theorem getCombineTypesList_cycle_counterexample:
  "supertype (heap ex_cycle 0) = Some ''B'' \<and> fmlookup (database ex_cycle) ''B'' = Some 1 \<and>
   supertype (heap ex_cycle 1) = Some ''A'' \<and> fmlookup (database ex_cycle) ''A'' = Some 0 \<and>
   getCombineTypesList ex_cycle 0 = Some (ex_cycle, Inr [0, 1])"
  by (simp add: ex_cycle_walk) (simp add: ex_cycle_def)

subsection \<open>C6: removal of a module\<close>

text \<open>
  C6, as amended.  \<open>RemoveTypesInModule\<close> deletes exactly the entries whose type has the
  given \<open>declaredModule\<close> and leaves every other entry, and every object, as it is.  A
  template instance has the \<open>declaredModule\<close> of its base, so the instance made from a
  base that module \<open>m\<close> declares is among the entries that the removal of \<open>m\<close>
  deletes.
\<close>

theorem RemoveTypesInModule_effect:
  "fmlookup (database (RemoveTypesInModule st m)) k =
     (case fmlookup (database st) k of
        None \<Rightarrow> None
      | Some a \<Rightarrow> if declaredModule (heap st a) = Some m then None else Some a) \<and>
   heap (RemoveTypesInModule st m) = heap st \<and>
   nextaddr (RemoveTypesInModule st m) = nextaddr st \<and>
   (fmlookup (database st) (CleanTypeName n) = None \<and>
    match_template (CleanTypeName n) = Some (b, i) \<and>
    fmlookup (database st) b = Some base \<and>
    declaredModule (heap st base) = Some m \<and>
    GetType st n = (st', Inr (Some a'))
    \<longrightarrow> fmlookup (database st') (CleanTypeName n) = Some a' \<and>
        declaredModule (heap st' a') = Some m \<and>
        fmlookup (database (RemoveTypesInModule st' m)) (CleanTypeName n) = None)"
proof -
  have inst: "fmlookup (database st') (CleanTypeName n) = Some a' \<and>
        declaredModule (heap st' a') = Some m \<and>
        fmlookup (database (RemoveTypesInModule st' m)) (CleanTypeName n) = None"
    if none: "fmlookup (database st) (CleanTypeName n) = None"
      and mt: "match_template (CleanTypeName n) = Some (b, i)"
      and base: "fmlookup (database st) b = Some base"
      and dm: "declaredModule (heap st base) = Some m"
      and g: "GetType st n = (st', Inr (Some a'))"
  proof -
    from GetType_result [OF g] none mt base obtain inst where
      c: "DBType_createTemplateInstance (heap st base) (map trim (split_comma i)) = Inr (Some inst)"
      and st': "st' = alloc_instance st (CleanTypeName n) inst" and a': "a' = nextaddr st"
      by auto
    from createTemplateInstance_copied(8) [OF c] dm
    have d: "declaredModule (heap st' a') = Some m"
      by (simp add: st' a' alloc_instance_def)
    have l: "fmlookup (database st') (CleanTypeName n) = Some a'"
      by (simp add: st' a' alloc_instance_def)
    from d l show ?thesis by (simp add: RemoveTypesInModule_lookup)
  qed
  show ?thesis
    using inst by (simp add: RemoveTypesInModule_lookup) (simp add: RemoveTypesInModule_def)
qed

text \<open>C6 at \<open>Array<int>\<close>, made from \<open>Array\<close> of \<open>moduleA\<close>.\<close>

theorem RemoveTypesInModule_effect_witness:
  "fmlookup (database (fst (GetType ex_registry ''Array<int>''))) (CleanTypeName ''Array<int>'') = Some 1 \<and>
   declaredModule (heap (fst (GetType ex_registry ''Array<int>'')) 1) = Some ''moduleA'' \<and>
   fmlookup (database (RemoveTypesInModule (fst (GetType ex_registry ''Array<int>'')) ''moduleA''))
      (CleanTypeName ''Array<int>'') = None"
proof -
  have 1: "fmlookup (database ex_registry) (CleanTypeName ''Array<int>'') = None"
    by (simp add: ex_defs string_defs)
  have 2: "match_template (CleanTypeName ''Array<int>'') = Some (''Array'', ''int'')"
    by (simp add: string_defs)
  have 3: "fmlookup (database ex_registry) ''Array'' = Some 0"
    by (simp add: ex_defs)
  have 4: "declaredModule (heap ex_registry 0) = Some ''moduleA''"
    by (simp add: ex_defs)
  have 5: "GetType ex_registry ''Array<int>'' = (fst (GetType ex_registry ''Array<int>''), Inr (Some 1))"
    by (simp add: ex_GetType_Array_int)
  from RemoveTypesInModule_effect [where st = ex_registry and m = "''moduleA''"
      and n = "''Array<int>''" and b = "''Array''" and i = "''int''" and base = 0
      and st' = "fst (GetType ex_registry ''Array<int>'')" and a' = 1] 1 2 3 4 5
  show ?thesis by blast
qed

text \<open>
  C6 as stated says that the removal of a module does not remove a template instance
  derived from a generic base of that module.  \<open>Array<int>\<close>, derived from \<open>Array\<close> of
  \<open>moduleA\<close>, is in the registry after its lookup and gone after the removal of
  \<open>moduleA\<close>.
\<close>

theorem template_instance_removed_counterexample:
  "fmlookup (database ex_registry) ''Array'' = Some 0 \<and>
   declaredModule (heap ex_registry 0) = Some ''moduleA'' \<and>
   GetType ex_registry ''Array<int>'' = (fst (GetType ex_registry ''Array<int>''), Inr (Some 1)) \<and>
   fmlookup (database (fst (GetType ex_registry ''Array<int>''))) ''Array<int>'' = Some 1 \<and>
   fmlookup (database (RemoveTypesInModule (fst (GetType ex_registry ''Array<int>'')) ''moduleA''))
     ''Array<int>'' = None"
  by (simp add: ex_GetType_Array_int RemoveTypesInModule_lookup alloc_instance_def)
     (simp add: ex_defs)

subsection \<open>C7: precedence among declarations of a method\<close>

text \<open>
  C7, as amended.  A type that declares a method of the given name itself gets its own
  declaration, whatever its bases declare.  A type \<open>C\<close> that does not declare the method,
  whose supertype (if it has one) does not resolve to a type that declares the method,
  and that has the sibling list \<open>[X, Y]\<close>, where \<open>X\<close> resolves to a type that declares
  the method, gets the declaration of \<open>X\<close>, whatever \<open>Y\<close> and the further bases declare,
  provided the walk over the bases raises no exception.  (The registry is taken to
  refer to allocated objects only, as every registry that the program builds does.)
\<close>

theorem getMethod_precedence:
  "(getMethod_own (heap st c) name = Some own
      \<longrightarrow> getMethod st c name recurse = Some (st, Inr (Some own))) \<and>
   (wf_state st \<and> c < nextaddr st \<and>
    getMethod_own (heap st c) name = None \<and>
    supertype_without st c name st0 \<and>
    siblingTypes (heap st c) = Some [X, Y] \<and>
    GetType st0 X = (st1, Inr (Some x)) \<and>
    getMethod_own (heap st1 x) name = Some mx \<and>
    getCombineTypesList st c = Some (st', Inr ext)
      \<longrightarrow> getMethod st c name True = Some (st', Inr (Some mx)))"
proof (intro conjI impI)
  assume "getMethod_own (heap st c) name = Some own"
  then show "getMethod st c name recurse = Some (st, Inr (Some own))"
    by (simp add: getMethod_def)
next
  assume a: "wf_state st \<and> c < nextaddr st \<and>
    getMethod_own (heap st c) name = None \<and>
    supertype_without st c name st0 \<and>
    siblingTypes (heap st c) = Some [X, Y] \<and>
    GetType st0 X = (st1, Inr (Some x)) \<and>
    getMethod_own (heap st1 x) name = Some mx \<and>
    getCombineTypesList st c = Some (st', Inr ext)"
  then have wf: "wf_state st" and c: "c < nextaddr st"
    and own: "getMethod_own (heap st c) name = None"
    and sup: "supertype_without st c name st0"
    and sib: "siblingTypes (heap st c) = Some [X, Y]"
    and gx: "GetType st0 X = (st1, Inr (Some x))"
    and mx: "getMethod_own (heap st1 x) name = Some mx"
    and walk: "getCombineTypesList st c = Some (st', Inr ext)"
    by simp_all
  from supertype_without_step [OF wf c own sup] obtain ext0 where
    super: "combine_super st [c] c = (st0, Inr (c # ext0))" and f0: "frame st st0"
    and none0: "\<forall>a \<in> set (c # ext0). a < nextaddr st0 \<and> getMethod_own (heap st0 a) name = None"
    by blast
  from f0 wf have wf0: "wf_state st0" by (simp add: frame_def)
  from f0 c have sib0: "siblingTypes (heap st0 c) = Some [X, Y]"
    using sib by (simp add: frame_def)
  from GetType_frame [OF gx] wf0 have f1: "frame st0 st1" and x: "x < nextaddr st1"
    by simp_all
  have none1: "\<forall>a \<in> set (c # ext0). getMethod_own (heap st1 a) name = None"
    using none0 f1 by (auto simp: frame_def)
  with mx have xn: "x \<notin> set (c # ext0)" by auto
  have p: "push_new (c # ext0) (Some x) = (c # ext0) @ [x]"
    using xn by (simp add: push_new_def)
  obtain st2 ry where gy: "GetType st1 Y = (st2, ry)" by (cases "GetType st1 Y")
  from GetType_frame [OF gy] have f2: "frame st1 st2" by simp
  have round: "combine_round st [c] c =
      (case ry of Inl e \<Rightarrow> (st2, Inl e)
       | Inr y \<Rightarrow> (st2, Inr (push_new ((c # ext0) @ [x]) y)))"
    by (cases ry) (simp_all add: combine_round_def super sib0 gx gy p)
  from walk have loop: "combine_loop st [c] 0 = Some (st', Inr ext)"
    by (simp add: getCombineTypesList_def)
  obtain y where ry: "ry = Inr y"
    using loop round by (subst (asm) combine_loop.simps) (cases ry; simp)
  from loop round ry
  have loop2: "combine_loop st2 (push_new ((c # ext0) @ [x]) y) 1 = Some (st', Inr ext)"
    by (subst (asm) combine_loop.simps) simp
  from combine_loop_frame_prefix [OF loop2] obtain ys where
    f3: "frame st2 st'" and "ext = push_new ((c # ext0) @ [x]) y @ ys"
    by auto
  with push_new_prefix [of "(c # ext0) @ [x]" y] obtain zs where
    ext: "ext = (c # ext0) @ (x # zs)"
    by auto
  from f1 f2 f3 have f: "frame st0 st'" "frame st1 st'"
    by (blast intro: frame_trans)+
  have "\<forall>a \<in> set (c # ext0). getMethod_own (heap st' a) name = None"
    using none0 f(1) by (auto simp: frame_def)
  then have "getMethod_extend st' ext name = getMethod_extend st' (x # zs) name"
    unfolding ext by (rule getMethod_extend_append)
  moreover from f(2) x have "heap st' x = heap st1 x" by (simp add: frame_def)
  ultimately have "getMethod_extend st' ext name = Some mx"
    using mx by simp
  moreover have "hasExtendTypes (heap st c)" using sib by (simp add: hasExtendTypes_def)
  ultimately show "getMethod st c name True = Some (st', Inr (Some mx))"
    using own walk by (simp add: getMethod_def)
qed

text \<open>C7 on \<open>ex_siblings\<close>: \<open>Y\<close> gets its own \<open>bar\<close>, and \<open>C\<close>, without supertype, gets the
  \<open>bar\<close> of \<open>X\<close>, not that of \<open>Y\<close>; and on \<open>ex_siblings_base\<close>: \<open>C\<close> with the supertype
  \<open>S\<close>, which declares no \<open>bar\<close>, gets the \<open>bar\<close> of \<open>X\<close> as well.\<close>

theorem getMethod_precedence_witness:
  "getMethod_own (heap ex_siblings 2) ''bar'' = Some (ex_method ''bar'' ''FromY'' []) \<and>
   getMethod ex_siblings 2 ''bar'' True
     = Some (ex_siblings, Inr (Some (ex_method ''bar'' ''FromY'' []))) \<and>
   getMethod_own (heap ex_siblings 0) ''bar'' = None \<and>
   supertype (heap ex_siblings 0) = None \<and>
   siblingTypes (heap ex_siblings 0) = Some [''X'', ''Y''] \<and>
   getMethod ex_siblings 0 ''bar'' True
     = Some (ex_siblings, Inr (Some (ex_method ''bar'' ''FromX'' []))) \<and>
   getMethod_own (heap ex_siblings_base 0) ''bar'' = None \<and>
   supertype (heap ex_siblings_base 0) = Some ''S'' \<and>
   GetType ex_siblings_base ''S'' = (ex_siblings_base, Inr (Some 3)) \<and>
   getMethod_own (heap ex_siblings_base 3) ''bar'' = None \<and>
   siblingTypes (heap ex_siblings_base 0) = Some [''X'', ''Y''] \<and>
   getMethod ex_siblings_base 0 ''bar'' True
     = Some (ex_siblings_base, Inr (Some (ex_method ''bar'' ''FromX'' [])))"
proof -
  have own: "getMethod_own (heap ex_siblings 2) ''bar'' = Some (ex_method ''bar'' ''FromY'' [])"
    by (simp add: ex_siblings_def ex_unused_def ex_method_def getMethod_own_def)
  have 1: "wf_state ex_siblings"
    by (auto simp: wf_state_def ex_siblings_def fmlookup_ran'_iff split: if_splits)
  have 2: "0 < nextaddr ex_siblings"
    "getMethod_own (heap ex_siblings 0) ''bar'' = None"
    "supertype (heap ex_siblings 0) = None"
    "siblingTypes (heap ex_siblings 0) = Some [''X'', ''Y'']"
    by (simp_all add: ex_siblings_def ex_unused_def getMethod_own_def)
  have s2: "supertype_without ex_siblings 0 ''bar'' ex_siblings"
    by (simp add: supertype_without_def 2)
  have 3: "GetType ex_siblings ''X'' = (ex_siblings, Inr (Some 1))"
    by (rule GetType_found) (simp add: ex_siblings_def string_defs)
  have 4: "getMethod_own (heap ex_siblings 1) ''bar'' = Some (ex_method ''bar'' ''FromX'' [])"
    by (simp add: ex_siblings_def ex_unused_def ex_method_def getMethod_own_def)
  have b1: "wf_state ex_siblings_base"
    by (auto simp: wf_state_def ex_siblings_base_def fmlookup_ran'_iff split: if_splits)
  have b2: "0 < nextaddr ex_siblings_base"
    "getMethod_own (heap ex_siblings_base 0) ''bar'' = None"
    "supertype (heap ex_siblings_base 0) = Some ''S''"
    "siblingTypes (heap ex_siblings_base 0) = Some [''X'', ''Y'']"
    "getMethod_own (heap ex_siblings_base 3) ''bar'' = None"
    by (simp_all add: ex_siblings_base_def ex_unused_def ex_method_def getMethod_own_def)
  have b3: "GetType ex_siblings_base ''S'' = (ex_siblings_base, Inr (Some 3))"
    "GetType ex_siblings_base ''X'' = (ex_siblings_base, Inr (Some 1))"
    by (rule GetType_found, simp add: ex_siblings_base_def string_defs)+
  have bs2: "supertype_without ex_siblings_base 0 ''bar'' ex_siblings_base"
    by (simp add: supertype_without_def b2 b3)
  have b4: "getMethod_own (heap ex_siblings_base 1) ''bar'' = Some (ex_method ''bar'' ''FromX'' [])"
    by (simp add: ex_siblings_base_def ex_unused_def ex_method_def getMethod_own_def)
  note t = getMethod_precedence [where name = "''bar''" and recurse = True]
  from t [where st = ex_siblings and c = 2 and own = "ex_method ''bar'' ''FromY'' []"] own
  have a: "getMethod ex_siblings 2 ''bar'' True
     = Some (ex_siblings, Inr (Some (ex_method ''bar'' ''FromY'' [])))"
    by blast
  from t [where st = ex_siblings and c = 0 and X = "''X''" and Y = "''Y''"
      and ?st0.0 = ex_siblings and ?st1.0 = ex_siblings and x = 1
      and mx = "ex_method ''bar'' ''FromX'' []" and st' = ex_siblings and ext = "[0, 1, 2]"]
    1 2 s2 3 4 ex_siblings_walk
  have b: "getMethod ex_siblings 0 ''bar'' True
     = Some (ex_siblings, Inr (Some (ex_method ''bar'' ''FromX'' [])))"
    by blast
  from t [where st = ex_siblings_base and c = 0 and X = "''X''" and Y = "''Y''"
      and ?st0.0 = ex_siblings_base and ?st1.0 = ex_siblings_base and x = 1
      and mx = "ex_method ''bar'' ''FromX'' []" and st' = ex_siblings_base
      and ext = "[0, 3, 1, 2]"]
    b1 b2 bs2 b3 b4 ex_siblings_base_walk
  have d: "getMethod ex_siblings_base 0 ''bar'' True
     = Some (ex_siblings_base, Inr (Some (ex_method ''bar'' ''FromX'' [])))"
    by blast
  from own a 2 b b2 b3 d show ?thesis by blast
qed

text \<open>
  C7 as stated is about every type with the sibling list \<open>[X, Y]\<close>, with or without
  a supertype.  When \<open>C\<close> also has a supertype \<open>S\<close> that declares \<open>bar\<close>, the supertype
  comes before the siblings in the list, and \<open>C\<close> gets the \<open>bar\<close> of \<open>S\<close>, not that of
  \<open>X\<close>.
\<close>

theorem getMethod_supertype_counterexample:
  "getMethod_own (heap ex_siblings_super 0) ''bar'' = None \<and>
   siblingTypes (heap ex_siblings_super 0) = Some [''X'', ''Y''] \<and>
   GetType ex_siblings_super ''X'' = (ex_siblings_super, Inr (Some 1)) \<and>
   GetType ex_siblings_super ''Y'' = (ex_siblings_super, Inr (Some 2)) \<and>
   getMethod_own (heap ex_siblings_super 1) ''bar'' = Some (ex_method ''bar'' ''FromX'' []) \<and>
   getMethod_own (heap ex_siblings_super 2) ''bar'' = Some (ex_method ''bar'' ''FromY'' []) \<and>
   getMethod ex_siblings_super 0 ''bar'' True
     = Some (ex_siblings_super, Inr (Some (ex_method ''bar'' ''FromS'' [])))"
proof -
  have g: "GetType ex_siblings_super ''X'' = (ex_siblings_super, Inr (Some 1))"
    "GetType ex_siblings_super ''Y'' = (ex_siblings_super, Inr (Some 2))"
    by (rule GetType_found, simp add: ex_siblings_super_def string_defs)+
  have own: "getMethod_own (heap ex_siblings_super 0) ''bar'' = None"
    and has: "hasExtendTypes (heap ex_siblings_super 0)"
    and ext: "getMethod_extend ex_siblings_super [0, 3, 1, 2] ''bar''
                = Some (ex_method ''bar'' ''FromS'' [])"
    by (simp_all add: ex_siblings_super_def ex_unused_def ex_method_def getMethod_own_def
          hasExtendTypes_def truthy_str_def)
  have "getMethod ex_siblings_super 0 ''bar'' True
     = Some (ex_siblings_super, Inr (getMethod_extend ex_siblings_super [0, 3, 1, 2] ''bar''))"
    by (simp add: getMethod_def own has ex_siblings_super_walk)
  then have "getMethod ex_siblings_super 0 ''bar'' True
     = Some (ex_siblings_super, Inr (Some (ex_method ''bar'' ''FromS'' [])))"
    unfolding ext .
  with g show ?thesis
    by (simp add: ex_siblings_super_def ex_unused_def ex_method_def getMethod_own_def)
qed

subsection \<open>C8: the type of an accessor-backed property\<close>

text \<open>
  C8.  \<open>getPropertyAccessorType\<close> of a name is claimed to return, for every type, the
  return type of the method \<open>get_<name>\<close> if one is found, otherwise the type of the
  first argument of a method \<open>set_<name>\<close> if one is found, otherwise none.  The search
  for the getter walks over the bases of a type that does not declare it, and a lookup
  that raises there ends the call: for a type without its own getter whose supertype
  name makes \<open>GetType\<close> raise, the call raises the same exception, whatever setter the
  type declares.  The exception of a placeholder count mismatch is the one of C1.
\<close>

theorem getPropertyAccessorType_raises:
  assumes "getMethod_own (heap st this) (''get_'' @ name) = None"
      and "supertype (heap st this) = Some s" "s \<noteq> []"
      and "GetType st s = (st', Inl e)"
  shows "getPropertyAccessorType st this name = Some (st', Inl e)"
proof -
  have r: "combine_round st [this] this = (st', Inl e)"
    using assms(2-4) by (simp add: combine_round_def combine_super_def)
  have w: "getCombineTypesList st this = Some (st', Inl e)"
    unfolding getCombineTypesList_def
    by (subst combine_loop.simps) (simp add: r)
  have h: "hasExtendTypes (heap st this)"
    using assms(2,3) by (simp add: hasExtendTypes_def truthy_str_def)
  have "getMethod st this (''get_'' @ name) True = Some (st', Inl e)"
    using assms(1) by (simp add: getMethod_def h w)
  then show ?thesis
    by (simp add: getPropertyAccessorType_def)
qed

text \<open>C8 on \<open>ex_broken_base\<close>: \<open>P\<close> declares \<open>set_x\<close> with an argument of type \<open>int\<close>, and
  the call for \<open>x\<close> raises a \<open>TypeError\<close>.\<close>

theorem getPropertyAccessorType_raises_witness:
  "getMethod_own (heap ex_broken_base 1) (''get_'' @ ''x'') = None \<and>
   getMethod_own (heap ex_broken_base 1) (''set_'' @ ''x'')
     = Some (ex_method ''set_x'' ''void''
          [\<lparr> a_name = Some ''value'', a_typename = ''int'', a_defaultvalue = None \<rparr>]) \<and>
   supertype (heap ex_broken_base 1) = Some ''Array<int,float>'' \<and>
   GetType ex_broken_base ''Array<int,float>'' = (ex_broken_base, Inl TypeError) \<and>
   getPropertyAccessorType ex_broken_base 1 ''x'' = Some (ex_broken_base, Inl TypeError)"
proof -
  have 1: "getMethod_own (heap ex_broken_base 1) (''get_'' @ ''x'') = None"
    "getMethod_own (heap ex_broken_base 1) (''set_'' @ ''x'')
     = Some (ex_method ''set_x'' ''void''
          [\<lparr> a_name = Some ''value'', a_typename = ''int'', a_defaultvalue = None \<rparr>])"
    by (simp_all add: ex_broken_base_def ex_unused_def ex_method_def getMethod_own_def)
  have 2: "supertype (heap ex_broken_base 1) = Some ''Array<int,float>''"
    "''Array<int,float>'' \<noteq> []"
    by (simp_all add: ex_broken_base_def ex_unused_def)
  have a: "fmlookup (database ex_broken_base) (CleanTypeName ''Array<int,float>'') = None"
    by (simp add: ex_broken_base_def string_defs)
  have b: "match_template (CleanTypeName ''Array<int,float>'') = Some (''Array'', ''int,float'')"
    by (simp add: string_defs)
  have 3: "GetType ex_broken_base ''Array<int,float>'' = (ex_broken_base, Inl TypeError)"
    unfolding GetType_template [OF a b]
    by (simp add: ex_broken_base_def ex_Array_def ex_unused_def DBType_createTemplateInstance_def)
  from getPropertyAccessorType_raises [OF 1(1) 2 3] 1 2(1) 3
  show ?thesis by blast
qed

subsection \<open>C9: namespaces and shadowed namespaces\<close>

text \<open>
  C9, as amended.  For a type whose namespace status is not resolved yet
  (\<open>namespaceResolved\<close> unset, as for every type that ingestion creates), the first
  query classifies it as a namespace exactly when its \<open>typename\<close> starts with \<open>__\<close>,
  and as a shadowed namespace exactly when moreover the registry has, at that moment,
  an entry under the \<open>typename\<close> without these two characters; a type that is not a
  namespace is not a shadowed namespace.  The query marks the type as resolved, and
  the answers stay what they were at that moment in every later state \<open>st2\<close> that has
  the object as the query left it, whatever the registry then holds.
\<close>

theorem namespace_first_query:
  assumes "namespaceResolved (heap st this) \<noteq> Some True"
  shows "snd (isNamespace st this) = Some (startsWith (typename (heap st this)) ''__'') \<and>
         snd (isShadowedNamespace st this) =
           Some (startsWith (typename (heap st this)) ''__'' \<and>
                 fmlookup (database st) (drop 2 (typename (heap st this))) \<noteq> None) \<and>
         namespaceResolved (heap (fst (isShadowedNamespace st this)) this) = Some True \<and>
         fst (isNamespace st this) = fst (isShadowedNamespace st this) \<and>
         (heap st2 this = heap (fst (isShadowedNamespace st this)) this \<longrightarrow>
            isShadowedNamespace st2 this = (st2, snd (isShadowedNamespace st this)) \<and>
            isNamespace st2 this = (st2, snd (isNamespace st this)))"
  using assms
  by (auto simp: isNamespace_def isShadowedNamespace_def resolveNamespace_def Let_def js_and_def)

text \<open>C9 on \<open>ex_Math\<close>: \<open>__Math\<close> is a namespace shadowed by \<open>Math\<close>, and stays so after a
  removal; \<open>__Gameplay\<close> is a namespace that is not shadowed; \<open>Math\<close> is neither.\<close>

theorem namespace_first_query_witness:
  "namespaceResolved (heap ex_Math 0) \<noteq> Some True \<and>
   snd (isNamespace ex_Math 0) = Some True \<and>
   snd (isShadowedNamespace ex_Math 0) = Some True \<and>
   snd (isShadowedNamespace ex_Math 2) = Some False \<and>
   snd (isNamespace ex_Math 1) = Some False \<and>
   snd (isShadowedNamespace ex_Math 1) = Some False \<and>
   isShadowedNamespace (RemoveTypesInModule (fst (isShadowedNamespace ex_Math 0)) ''moduleA'') 0
     = (RemoveTypesInModule (fst (isShadowedNamespace ex_Math 0)) ''moduleA'', Some True)"
proof -
  have h: "namespaceResolved (heap ex_Math 0) \<noteq> Some True"
    "namespaceResolved (heap ex_Math 1) \<noteq> Some True"
    "namespaceResolved (heap ex_Math 2) \<noteq> Some True"
    by (simp_all add: ex_Math_def ex_unused_def)
  have v: "startsWith (typename (heap ex_Math 0)) ''__''"
    "fmlookup (database ex_Math) (drop 2 (typename (heap ex_Math 0))) \<noteq> None"
    "startsWith (typename (heap ex_Math 2)) ''__''"
    "fmlookup (database ex_Math) (drop 2 (typename (heap ex_Math 2))) = None"
    "\<not> startsWith (typename (heap ex_Math 1)) ''__''"
    by (simp_all add: ex_Math_def ex_unused_def startsWith_def)
  have k: "heap (RemoveTypesInModule (fst (isShadowedNamespace ex_Math 0)) ''moduleA'') 0
           = heap (fst (isShadowedNamespace ex_Math 0)) 0"
    by (simp add: RemoveTypesInModule_def)
  from namespace_first_query [OF h(1), of "RemoveTypesInModule (fst (isShadowedNamespace ex_Math 0)) ''moduleA''"]
       namespace_first_query [OF h(2), of ex_Math]
       namespace_first_query [OF h(3), of ex_Math] h(1) v k
  show ?thesis by simp
qed

text \<open>
  C9 as stated is about the first query on every type.  A template instance takes
  over the resolved status of its base: \<open>__Arr<int>\<close>, created after the status of the
  generic namespace \<open>__Arr\<close> was resolved (shadowed by \<open>Arr\<close>), answers the first query
  on it with \<open>true\<close>, although the registry has no entry \<open>Arr<int>\<close>.
\<close>

theorem namespace_instance_counterexample:
  "snd (GetType (fst (isShadowedNamespace ex_generic_ns 0)) ''__Arr<int>'') = Inr (Some 2) \<and>
   typename (heap ex_generic_ns_queried 2) = ''__Arr<int>'' \<and>
   fmlookup (database ex_generic_ns_queried) ''Arr<int>'' = None \<and>
   snd (isShadowedNamespace ex_generic_ns_queried 2) = Some True"
  by (simp add: ex_generic_ns_queried_def ex_generic_ns_def ex_unused_def
      isShadowedNamespace_def resolveNamespace_def js_and_def GetType.simps eval_defs)

subsection \<open>C10: engine types have no module\<close>

text \<open>
  C10.  Every type that \<open>AddTypesFromUnreal\<close> ingests is in the registry with no
  \<open>declaredModule\<close>, and is still there, the same object, after the removal of any
  module \<open>m\<close>.  In any state, an entry that the removal of \<open>m\<close> deletes is one whose
  type has the \<open>declaredModule\<close> \<open>m\<close>.
\<close>

theorem engine_types_survive_removal:
  "(key \<in> fst ` set input \<longrightarrow>
      (\<exists>a. fmlookup (database (AddTypesFromUnreal st input)) key = Some a \<and>
           declaredModule (heap (AddTypesFromUnreal st input) a) = None \<and>
           fmlookup (database (RemoveTypesInModule (AddTypesFromUnreal st input) m)) key = Some a)) \<and>
   (fmlookup (database st0) k = Some b \<and>
    fmlookup (database (RemoveTypesInModule st0 m)) k = None
      \<longrightarrow> declaredModule (heap st0 b) = Some m)"
proof (intro conjI impI)
  assume "key \<in> fst ` set input"
  with AddTypesFromUnreal_entries [of "{}" st input]
  have "engine_entry (AddTypesFromUnreal st input) key" by blast
  then show "\<exists>a. fmlookup (database (AddTypesFromUnreal st input)) key = Some a \<and>
             declaredModule (heap (AddTypesFromUnreal st input) a) = None \<and>
             fmlookup (database (RemoveTypesInModule (AddTypesFromUnreal st input) m)) key = Some a"
    by (auto simp: engine_entry_def RemoveTypesInModule_lookup split: option.splits)
next
  assume "fmlookup (database st0) k = Some b \<and>
    fmlookup (database (RemoveTypesInModule st0 m)) k = None"
  then show "declaredModule (heap st0 b) = Some m"
    by (auto simp: RemoveTypesInModule_lookup split: if_splits)
qed

text \<open>C10 on \<open>ex_registry\<close> after the dump \<open>ex_dump\<close>: the removal of \<open>moduleA\<close> deletes
  \<open>Array\<close>, which \<open>moduleA\<close> declares, and keeps \<open>AActor\<close>.\<close>

theorem engine_types_survive_removal_witness:
  "''AActor'' \<in> fst ` set ex_dump \<and>
   fmlookup (database (AddTypesFromUnreal ex_registry ex_dump)) ''AActor'' = Some 1 \<and>
   declaredModule (heap (AddTypesFromUnreal ex_registry ex_dump) 1) = None \<and>
   fmlookup (database (RemoveTypesInModule (AddTypesFromUnreal ex_registry ex_dump) ''moduleA''))
     ''AActor'' = Some 1 \<and>
   fmlookup (database (AddTypesFromUnreal ex_registry ex_dump)) ''Array'' = Some 0 \<and>
   fmlookup (database (RemoveTypesInModule (AddTypesFromUnreal ex_registry ex_dump) ''moduleA''))
     ''Array'' = None \<and>
   declaredModule (heap (AddTypesFromUnreal ex_registry ex_dump) 0) = Some ''moduleA''"
proof -
  let ?st = "AddTypesFromUnreal ex_registry ex_dump"
  have 1: "''AActor'' \<in> fst ` set ex_dump" by (simp add: ex_dump_def)
  have 2: "fmlookup (database ?st) ''AActor'' = Some 1"
    "fmlookup (database ?st) ''Array'' = Some 0"
    by (simp_all add: ex_dump_def ex_registry_def)
  have 3: "fmlookup (database (RemoveTypesInModule ?st ''moduleA'')) ''Array'' = None"
    by (simp add: RemoveTypesInModule_lookup ex_dump_def) (simp add: ex_defs)
  note t = engine_types_survive_removal [where st = ex_registry and input = ex_dump
      and m = "''moduleA''" and key = "''AActor''" and ?st0.0 = ?st and k = "''Array''" and b = 0]
  from t 1 2 3 show ?thesis by auto
qed

end
